theory Spec2Isabelle
  imports Main "HOL-Library.Char_ord" "HOL-Library.List_Lexorder"
begin

section \<open>The DynamoDB migrator: export and import of one table\<close>

text \<open>
  The program is one Go file, \<^verbatim>\<open>main.go\<close>. It talks to three collaborators that are
  not part of it: the DynamoDB client of the AWS SDK, the attribute-value and JSON
  codecs, and the terminal prompt. The model takes each of them as a parameter, so that
  what is proved about \<^verbatim>\<open>export\<close> and \<^verbatim>\<open>importFromFile\<close> holds for every behaviour of
  the collaborators. A concrete model of the collaborators follows further down and is
  used where a claim speaks about concrete documents and tables.
\<close>

subsection \<open>Errors\<close>

text \<open>
  A Go \<^verbatim>\<open>error\<close> value is opaque to the program: it is only tested against \<^verbatim>\<open>nil\<close>
  and handed on. A nil-pointer dereference does not return: it panics.
\<close>

datatype error = Error string

datatype fault = Err error | Panic

subsection \<open>The SDK's types\<close>

datatype key_type = KeyTypeHash | KeyTypeRange | KeyTypeOther string

record key_schema_element =
  AttributeName :: "string option"
  KeyType :: key_type

record table_description =
  td_TableName :: "string option"
  KeySchema :: "key_schema_element list"

record describe_table_output =
  Table :: "table_description option"

text \<open>
  A scan page. \<^verbatim>\<open>LastEvaluatedKey\<close> is a map in the SDK; \<open>None\<close> stands for the nil
  map, the only thing the paginator tests it for. Any other map, the empty one too,
  is \<open>Some\<close> of it.
\<close>

record 'av scan_output =
  so_Items :: "'av list"
  LastEvaluatedKey :: "'av option"

text \<open>The requests the client sends, in the order it sends them.\<close>

datatype 'av request =
    DescribeTableReq string
  | ScanReq string "'av option"
  | PutItemReq string 'av

text \<open>
  The service is a state \<open>'s\<close> that every request may change and every answer may
  depend on; \<open>'av\<close> is an item in attribute-value form
  (\<^verbatim>\<open>map[string]types.AttributeValue\<close>).
\<close>

record ('s, 'av) client =
  DescribeTable :: "'s \<Rightarrow> string \<Rightarrow> (error + describe_table_output) \<times> 's"
  Scan :: "'s \<Rightarrow> string \<Rightarrow> 'av option \<Rightarrow> (error + 'av scan_output) \<times> 's"
  PutItem :: "'s \<Rightarrow> string \<Rightarrow> 'av \<Rightarrow> (error + unit) \<times> 's"

record ('s, 'av) world =
  store :: 's
  requests :: "'av request list"

definition client_DescribeTable ::
  "('s, 'av) client \<Rightarrow> string \<Rightarrow> ('s, 'av) world
     \<Rightarrow> (error + describe_table_output) \<times> ('s, 'av) world" where
  "client_DescribeTable cl tn w =
     (case DescribeTable cl (store w) tn of
        (r, s') \<Rightarrow> (r, \<lparr>store = s', requests = requests w @ [DescribeTableReq tn]\<rparr>))"

definition client_Scan ::
  "('s, 'av) client \<Rightarrow> string \<Rightarrow> 'av option \<Rightarrow> ('s, 'av) world
     \<Rightarrow> (error + 'av scan_output) \<times> ('s, 'av) world" where
  "client_Scan cl tn tok w =
     (case Scan cl (store w) tn tok of
        (r, s') \<Rightarrow> (r, \<lparr>store = s', requests = requests w @ [ScanReq tn tok]\<rparr>))"

definition client_PutItem ::
  "('s, 'av) client \<Rightarrow> string \<Rightarrow> 'av \<Rightarrow> ('s, 'av) world
     \<Rightarrow> (error + unit) \<times> ('s, 'av) world" where
  "client_PutItem cl tn item w =
     (case PutItem cl (store w) tn item of
        (r, s') \<Rightarrow> (r, \<lparr>store = s', requests = requests w @ [PutItemReq tn item]\<rparr>))"

subsection \<open>The scan paginator of the SDK\<close>

record 'av paginator =
  firstPage :: bool
  nextToken :: "'av option"

definition NewScanPaginator :: "'av paginator" where
  "NewScanPaginator = \<lparr>firstPage = True, nextToken = None\<rparr>"

definition HasMorePages :: "'av paginator \<Rightarrow> bool" where
  "HasMorePages p = (firstPage p \<or> nextToken p \<noteq> None)"

definition NextPage ::
  "('s, 'av) client \<Rightarrow> string \<Rightarrow> 'av paginator \<Rightarrow> ('s, 'av) world
     \<Rightarrow> (error + 'av scan_output) \<times> 'av paginator \<times> ('s, 'av) world" where
  "NextPage cl tn p w =
     (case client_Scan cl tn (nextToken p) w of
        (Inl e, w') \<Rightarrow> (Inl e, p, w')
      | (Inr out, w') \<Rightarrow>
          (Inr out, \<lparr>firstPage = False, nextToken = LastEvaluatedKey out\<rparr>, w'))"

subsection \<open>The document and the codecs\<close>

text \<open>\<open>'any\<close> is an item as the document holds it (\<^verbatim>\<open>map[string]any\<close>).\<close>

record 'any exportFormat =
  TableName :: string
  PrimaryKey :: string
  RangeKey :: string
  Items :: "'any list"

record ('av, 'any) codecs =
  UnmarshalListOfMaps :: "'av list \<Rightarrow> error + 'any list"
  MarshalMap :: "'any \<Rightarrow> error + 'av"
  json_Marshal :: "'any exportFormat \<Rightarrow> error + string"
  json_Unmarshal :: "string \<Rightarrow> error + 'any exportFormat"

text \<open>
  The process environment of an import: the file system, and the form that asks for
  confirmation. Running the form leaves a value in the variable \<^verbatim>\<open>confirm\<close> (which
  starts as false) and returns an error or nil.
\<close>

record environment =
  ReadFile :: "string \<Rightarrow> error + string"
  form_Run :: "string \<Rightarrow> bool \<times> error option"

subsection \<open>export\<close>

text \<open>The loop over the key schema, lines 102 to 110.\<close>

fun key_schema_loop ::
  "key_schema_element list \<Rightarrow> 'any exportFormat \<Rightarrow> fault + 'any exportFormat" where
  "key_schema_loop [] d = Inr d"
| "key_schema_loop (key # keys) d =
     (if KeyType key = KeyTypeHash then
        (case AttributeName key of
           None \<Rightarrow> Inl Panic
         | Some n \<Rightarrow> key_schema_loop keys (d\<lparr>PrimaryKey := n\<rparr>))
      else if KeyType key = KeyTypeRange then
        (case AttributeName key of
           None \<Rightarrow> Inl Panic
         | Some n \<Rightarrow> key_schema_loop keys (d\<lparr>RangeKey := n\<rparr>))
      else key_schema_loop keys d)"

text \<open>
  The loop over the pages, lines 116 to 124. Nothing in the program bounds it: it runs
  for as long as the service answers with a \<^verbatim>\<open>LastEvaluatedKey\<close>, so its model is a
  partial function, and \<open>None\<close> is the run that never returns.
\<close>

partial_function (option) scan_loop ::
  "('s, 'av) client \<Rightarrow> string \<Rightarrow> 'av paginator \<Rightarrow> 'av list \<Rightarrow> ('s, 'av) world
     \<Rightarrow> ((error + 'av list) \<times> ('s, 'av) world) option" where
  "scan_loop cl tn p items w =
     (if HasMorePages p then
        (case NextPage cl tn p w of
           (Inl e, p', w') \<Rightarrow> Some (Inl e, w')
         | (Inr out, p', w') \<Rightarrow> scan_loop cl tn p' (items @ so_Items out) w')
      else Some (Inr items, w))"

text \<open>
  Lines 91 to 129: everything up to the document as a value, before it is serialised.
\<close>

definition export_data ::
  "string \<Rightarrow> ('s, 'av) client \<Rightarrow> ('av, 'any) codecs \<Rightarrow> ('s, 'av) world
     \<Rightarrow> ((fault + 'any exportFormat) \<times> ('s, 'av) world) option" where
  "export_data tableName cl lib w =
     (case client_DescribeTable cl tableName w of
        (Inl e, w1) \<Rightarrow> Some (Inl (Err e), w1)
      | (Inr table, w1) \<Rightarrow>
          (case Table table of
             None \<Rightarrow> Some (Inl Panic, w1)
           | Some td \<Rightarrow>
               (case td_TableName td of
                  None \<Rightarrow> Some (Inl Panic, w1)
                | Some n \<Rightarrow>
                    (case key_schema_loop (KeySchema td)
                            \<lparr>TableName = n, PrimaryKey = [], RangeKey = [], Items = []\<rparr> of
                       Inl f \<Rightarrow> Some (Inl f, w1)
                     | Inr exportData \<Rightarrow>
                         (case scan_loop cl tableName NewScanPaginator [] w1 of
                            None \<Rightarrow> None
                          | Some (Inl e, w2) \<Rightarrow> Some (Inl (Err e), w2)
                          | Some (Inr items, w2) \<Rightarrow>
                              (case UnmarshalListOfMaps lib items of
                                 Inl e \<Rightarrow> Some (Inl (Err e), w2)
                               | Inr its \<Rightarrow>
                                   Some (Inr (exportData\<lparr>Items := its\<rparr>), w2)))))))"

definition export ::
  "string \<Rightarrow> ('s, 'av) client \<Rightarrow> ('av, 'any) codecs \<Rightarrow> ('s, 'av) world
     \<Rightarrow> ((fault + string) \<times> ('s, 'av) world) option" where
  "export tableName cl lib w =
     (case export_data tableName cl lib w of
        None \<Rightarrow> None
      | Some (Inl f, w') \<Rightarrow> Some (Inl f, w')
      | Some (Inr exportData, w') \<Rightarrow>
          (case json_Marshal lib exportData of
             Inl e \<Rightarrow> Some (Inl (Err e), w')
           | Inr dump \<Rightarrow> Some (Inr dump, w')))"

subsection \<open>importFromFile\<close>

text \<open>The loop over the items, lines 165 to 178.\<close>

fun put_loop ::
  "string \<Rightarrow> ('s, 'av) client \<Rightarrow> ('av, 'any) codecs \<Rightarrow> 'any list \<Rightarrow> ('s, 'av) world
     \<Rightarrow> (error + unit) \<times> ('s, 'av) world" where
  "put_loop tableName cl lib [] w = (Inr (), w)"
| "put_loop tableName cl lib (item # rest) w =
     (case MarshalMap lib item of
        Inl e \<Rightarrow> (Inl e, w)
      | Inr mapdata \<Rightarrow>
          (case client_PutItem cl tableName mapdata w of
             (Inl e, w') \<Rightarrow> (Inl e, w')
           | (Inr u, w') \<Rightarrow> put_loop tableName cl lib rest w'))"

definition confirm_title :: "string \<Rightarrow> string" where
  "confirm_title tableName =
     ''This will import data into '' @ tableName @ ''! Do you want to continue?''"

definition importFromFile ::
  "string \<Rightarrow> environment \<Rightarrow> ('s, 'av) client \<Rightarrow> ('av, 'any) codecs \<Rightarrow> string
     \<Rightarrow> ('s, 'av) world \<Rightarrow> (error + unit) \<times> ('s, 'av) world" where
  "importFromFile tableName env cl lib path w =
     (case ReadFile env path of
        Inl e \<Rightarrow> (Inl e, w)
      | Inr raw \<Rightarrow>
          (case json_Unmarshal lib raw of
             Inl e \<Rightarrow> (Inl e, w)
           | Inr data \<Rightarrow>
               (case form_Run env (confirm_title tableName) of
                  (confirm, form_err) \<Rightarrow>
                    if \<not> confirm then (Inr (), w)
                    else put_loop tableName cl lib (Items data) w)))"

subsection \<open>What the claims speak of\<close>

text \<open>
  The store after the writes of \<open>ms\<close>, in order, when each of them succeeds;
  \<open>None\<close> when one of them fails.
\<close>

fun put_all :: "('s, 'av) client \<Rightarrow> string \<Rightarrow> 'av list \<Rightarrow> 's \<Rightarrow> 's option" where
  "put_all cl tn [] s = Some s"
| "put_all cl tn (m # ms) s =
     (case PutItem cl s tn m of
        (Inr u, s') \<Rightarrow> put_all cl tn ms s'
      | (Inl e, s') \<Rightarrow> None)"

text \<open>
  The service answers the scan requests of a paginator with the pages \<open>outs\<close>, each
  of them carrying a \<^verbatim>\<open>LastEvaluatedKey\<close>: the result is the token for the next request
  and the state of the service then.
\<close>

fun scan_serves ::
  "('s, 'av) client \<Rightarrow> string \<Rightarrow> 'av option \<Rightarrow> 's \<Rightarrow> 'av scan_output list
     \<Rightarrow> ('av option \<times> 's) option" where
  "scan_serves cl tn tok s [] = Some (tok, s)"
| "scan_serves cl tn tok s (out # outs) =
     (case Scan cl s tn tok of
        (Inr out', s') \<Rightarrow>
          if out' = out \<and> LastEvaluatedKey out \<noteq> None
          then scan_serves cl tn (LastEvaluatedKey out) s' outs else None
      | (Inl e, s') \<Rightarrow> None)"

definition scan_requests :: "string \<Rightarrow> 'av scan_output list \<Rightarrow> 'av request list" where
  "scan_requests tn outs = map (ScanReq tn) (None # map LastEvaluatedKey outs)"

definition is_put :: "'av request \<Rightarrow> bool" where
  "is_put r = (case r of PutItemReq tn item \<Rightarrow> True | _ \<Rightarrow> False)"

text \<open>The key schema declares a key of type \<open>t\<close>, and its attribute is \<open>n\<close>.\<close>

definition declares :: "key_schema_element list \<Rightarrow> key_type \<Rightarrow> string \<Rightarrow> bool" where
  "declares ks t n =
     ((\<exists>k \<in> set ks. KeyType k = t) \<and> (\<forall>k \<in> set ks. KeyType k = t \<longrightarrow> AttributeName k = Some n))"

section \<open>A model of the collaborators\<close>

subsection \<open>Attribute values and Go values\<close>

text \<open>
  The scalar, list and map members of \<^verbatim>\<open>types.AttributeValue\<close> (binary values and sets
  are left out). A Go map is an association list.
\<close>

datatype attr =
    MemberS string
  | MemberN string
  | MemberBOOL bool
  | MemberNULL
  | MemberL "attr list"
  | MemberM "(string \<times> attr) list"

type_synonym avitem = "(string \<times> attr) list"

text \<open>
  What \<^verbatim>\<open>any\<close> holds after decoding. A \<^verbatim>\<open>float64\<close> is modelled where it is a whole
  number of magnitude at most \<open>2 ^ 53\<close>: there the conversions from and to decimal digits
  are exact.
\<close>

datatype any =
    GoString string
  | GoFloat64 int
  | GoBool bool
  | GoNil
  | GoSlice "any list"
  | GoMap "(string \<times> any) list"

type_synonym anyitem = "(string \<times> any) list"

subsection \<open>Numbers as decimal digits\<close>

definition digit_val :: "char \<Rightarrow> nat option" where
  "digit_val c =
     (if 48 \<le> (of_char c :: nat) \<and> (of_char c :: nat) \<le> 57
      then Some (of_char c - 48) else None)"

fun parse_digits :: "string \<Rightarrow> nat \<Rightarrow> nat option" where
  "parse_digits [] acc = Some acc"
| "parse_digits (c # cs) acc =
     (case digit_val c of
        None \<Rightarrow> None
      | Some d \<Rightarrow> parse_digits cs (10 * acc + d))"

definition parse_nat :: "string \<Rightarrow> nat option" where
  "parse_nat s = (if s = [] then None else parse_digits s 0)"

definition parse_int :: "string \<Rightarrow> int option" where
  "parse_int s =
     (case s of
        [] \<Rightarrow> None
      | c # cs \<Rightarrow>
          if c = CHR ''-'' then map_option (\<lambda>n. - int n) (parse_nat cs)
          else if c = CHR ''+'' then map_option int (parse_nat cs)
          else map_option int (parse_nat s))"

definition digit_char :: "nat \<Rightarrow> char" where
  "digit_char d = ''0123456789'' ! (d mod 10)"

fun show_nat :: "nat \<Rightarrow> string" where
  "show_nat n = (if n < 10 then [digit_char n] else show_nat (n div 10) @ [digit_char (n mod 10)])"

definition show_int :: "int \<Rightarrow> string" where
  "show_int i = (if i < 0 then CHR ''-'' # show_nat (nat (- i)) else show_nat (nat i))"

text \<open>
  \<^verbatim>\<open>strconv.ParseFloat\<close> on the modelled numbers: a sign and digits, a whole number of
  magnitude at most \<open>2 ^ 53\<close>, and not the negative zero. Any other string is outside
  the model, which says so with an error of its own.
\<close>

definition ParseFloat :: "string \<Rightarrow> error + int" where
  "ParseFloat s =
     (case parse_int s of
        None \<Rightarrow> Inl (Error ''number outside the model'')
      | Some i \<Rightarrow>
          if \<bar>i\<bar> \<le> 2 ^ 53 \<and> \<not> (i = 0 \<and> take 1 s = ''-'')
          then Inr i else Inl (Error ''number outside the model''))"

text \<open>\<^verbatim>\<open>strconv.FormatFloat(f, 'f', -1, 64)\<close> on a whole number.\<close>

definition FormatFloat :: "int \<Rightarrow> string" where
  "FormatFloat i = show_int i"

subsection \<open>The attribute-value codec\<close>

text \<open>
  Decoding into \<^verbatim>\<open>any\<close>: a string for S, a \<^verbatim>\<open>float64\<close> for N, a bool for BOOL, nil for
  NULL, a slice for L and a map for M.
\<close>

fun decode_value :: "attr \<Rightarrow> error + any"
  and decode_list :: "attr list \<Rightarrow> error + any list"
  and decode_fields :: "(string \<times> attr) list \<Rightarrow> error + (string \<times> any) list" where
  "decode_value (MemberS s) = Inr (GoString s)"
| "decode_value (MemberN n) =
     (case ParseFloat n of Inl e \<Rightarrow> Inl e | Inr f \<Rightarrow> Inr (GoFloat64 f))"
| "decode_value (MemberBOOL b) = Inr (GoBool b)"
| "decode_value MemberNULL = Inr GoNil"
| "decode_value (MemberL vs) =
     (case decode_list vs of Inl e \<Rightarrow> Inl e | Inr xs \<Rightarrow> Inr (GoSlice xs))"
| "decode_value (MemberM kvs) =
     (case decode_fields kvs of Inl e \<Rightarrow> Inl e | Inr xs \<Rightarrow> Inr (GoMap xs))"
| "decode_list [] = Inr []"
| "decode_list (v # vs) =
     (case decode_value v of
        Inl e \<Rightarrow> Inl e
      | Inr x \<Rightarrow> (case decode_list vs of Inl e \<Rightarrow> Inl e | Inr xs \<Rightarrow> Inr (x # xs)))"
| "decode_fields [] = Inr []"
| "decode_fields (kv # kvs) =
     (case decode_value (snd kv) of
        Inl e \<Rightarrow> Inl e
      | Inr x \<Rightarrow>
          (case decode_fields kvs of Inl e \<Rightarrow> Inl e | Inr xs \<Rightarrow> Inr ((fst kv, x) # xs)))"

fun go_UnmarshalListOfMaps :: "avitem list \<Rightarrow> error + anyitem list" where
  "go_UnmarshalListOfMaps [] = Inr []"
| "go_UnmarshalListOfMaps (item # items) =
     (case decode_fields item of
        Inl e \<Rightarrow> Inl e
      | Inr x \<Rightarrow>
          (case go_UnmarshalListOfMaps items of Inl e \<Rightarrow> Inl e | Inr xs \<Rightarrow> Inr (x # xs)))"

text \<open>Encoding: the same table read from right to left; it never fails on these values.\<close>

fun encode_value :: "any \<Rightarrow> attr"
  and encode_list :: "any list \<Rightarrow> attr list"
  and encode_fields :: "(string \<times> any) list \<Rightarrow> (string \<times> attr) list" where
  "encode_value (GoString s) = MemberS s"
| "encode_value (GoFloat64 f) = MemberN (FormatFloat f)"
| "encode_value (GoBool b) = MemberBOOL b"
| "encode_value GoNil = MemberNULL"
| "encode_value (GoSlice xs) = MemberL (encode_list xs)"
| "encode_value (GoMap kvs) = MemberM (encode_fields kvs)"
| "encode_list [] = []"
| "encode_list (x # xs) = encode_value x # encode_list xs"
| "encode_fields [] = []"
| "encode_fields (kv # kvs) = (fst kv, encode_value (snd kv)) # encode_fields kvs"

definition go_MarshalMap :: "anyitem \<Rightarrow> error + avitem" where
  "go_MarshalMap item = Inr (encode_fields item)"

subsection \<open>UTF-8\<close>

text \<open>
  A Go string is a sequence of bytes. \<^verbatim>\<open>utf8.DecodeRune\<close> reads one encoded code point
  from its head: \<open>utf8_width\<close> is the number of bytes read, and \<open>None\<close> when the head
  is not a well-formed encoding (the rune error, of width 1). \<^verbatim>\<open>utf8.EncodeRune\<close> writes
  a code point, and the replacement character for a surrogate or a value out of range.
\<close>

definition in_bytes :: "nat \<Rightarrow> nat \<Rightarrow> char \<Rightarrow> bool" where
  "in_bytes lo hi c = (lo \<le> (of_char c :: nat) \<and> (of_char c :: nat) \<le> hi)"

definition tail_bytes :: "nat \<Rightarrow> nat \<Rightarrow> nat \<Rightarrow> string \<Rightarrow> bool" where
  "tail_bytes lo hi k cs =
     (case cs of
        [] \<Rightarrow> False
      | d # ds \<Rightarrow> in_bytes lo hi d \<and> k \<le> length ds \<and> list_all (in_bytes 128 191) (take k ds))"

definition utf8_width :: "string \<Rightarrow> nat option" where
  "utf8_width s =
     (case s of
        [] \<Rightarrow> None
      | c # cs \<Rightarrow>
          if in_bytes 0 127 c then Some 1
          else if in_bytes 194 223 c then (if tail_bytes 128 191 0 cs then Some 2 else None)
          else if in_bytes 224 224 c then (if tail_bytes 160 191 1 cs then Some 3 else None)
          else if in_bytes 237 237 c then (if tail_bytes 128 159 1 cs then Some 3 else None)
          else if in_bytes 225 239 c then (if tail_bytes 128 191 1 cs then Some 3 else None)
          else if in_bytes 240 240 c then (if tail_bytes 144 191 2 cs then Some 4 else None)
          else if in_bytes 241 243 c then (if tail_bytes 128 191 2 cs then Some 4 else None)
          else if in_bytes 244 244 c then (if tail_bytes 128 143 2 cs then Some 4 else None)
          else None)"

definition replacement :: string where
  "replacement = [CHR 0xEF, CHR 0xBF, CHR 0xBD]"

definition encode_rune :: "nat \<Rightarrow> string" where
  "encode_rune r =
     (if r < 128 then [char_of r]
      else if r < 2048 then [char_of (192 + r div 64), char_of (128 + r mod 64)]
      else if (55296 \<le> r \<and> r < 57344) \<or> 1114111 < r then replacement
      else if r < 65536 then
        [char_of (224 + r div 4096), char_of (128 + r div 64 mod 64), char_of (128 + r mod 64)]
      else
        [char_of (240 + r div 262144), char_of (128 + r div 4096 mod 64),
         char_of (128 + r div 64 mod 64), char_of (128 + r mod 64)])"

subsection \<open>Writing JSON\<close>

text \<open>
  \<^verbatim>\<open>json.Marshal\<close> with its defaults: the quote, the backslash, control characters and
  the three HTML characters are escaped, and so are the line and paragraph separators
  U+2028 and U+2029; a byte that is not part of a well-formed encoding is written as the
  escaped replacement character. The keys of a map come out sorted; a struct gives its
  fields in the order of their declaration, under their own names, since
  \<^verbatim>\<open>exportFormat\<close> has no field tags.
\<close>

definition hex_char :: "nat \<Rightarrow> char" where
  "hex_char d = ''0123456789abcdef'' ! (d mod 16)"

definition json_escape :: "char \<Rightarrow> string" where
  "json_escape c =
     (if c = CHR 0x22 then [CHR 0x5C, CHR 0x22]
      else if c = CHR 0x5C then [CHR 0x5C, CHR 0x5C]
      else if c = CHR 0x08 then [CHR 0x5C, CHR ''b'']
      else if c = CHR 0x0C then [CHR 0x5C, CHR ''f'']
      else if c = CHR 0x0A then [CHR 0x5C, CHR ''n'']
      else if c = CHR 0x0D then [CHR 0x5C, CHR ''r'']
      else if c = CHR 0x09 then [CHR 0x5C, CHR ''t'']
      else if (of_char c :: nat) < 32 \<or> c = CHR ''<'' \<or> c = CHR ''>'' \<or> c = CHR ''&''
      then [CHR 0x5C, CHR ''u'', CHR ''0'', CHR ''0'',
            hex_char (of_char c div 16), hex_char (of_char c mod 16)]
      else [c])"

fun json_chars :: "string \<Rightarrow> string" where
  "json_chars [] = []"
| "json_chars (c # cs) =
     (if in_bytes 0 127 c then json_escape c @ json_chars cs
      else
        (case utf8_width (c # cs) of
           None \<Rightarrow> CHR 0x5C # ''ufffd'' @ json_chars cs
         | Some n \<Rightarrow>
             if c # take 2 cs = [CHR 0xE2, CHR 0x80, CHR 0xA8]
             then CHR 0x5C # ''u2028'' @ json_chars (drop 2 cs)
             else if c # take 2 cs = [CHR 0xE2, CHR 0x80, CHR 0xA9]
             then CHR 0x5C # ''u2029'' @ json_chars (drop 2 cs)
             else c # take (n - 1) cs @ json_chars (drop (n - 1) cs)))"

definition json_string :: "string \<Rightarrow> string" where
  "json_string s = CHR 0x22 # json_chars s @ [CHR 0x22]"

fun commas :: "string list \<Rightarrow> string" where
  "commas [] = []"
| "commas [x] = x"
| "commas (x # y # ys) = x @ CHR '','' # commas (y # ys)"

definition json_member :: "string \<times> string \<Rightarrow> string" where
  "json_member kv = json_string (fst kv) @ CHR '':'' # snd kv"

definition json_object :: "(string \<times> string) list \<Rightarrow> string" where
  "json_object kvs = CHR ''{'' # commas (map json_member kvs) @ ''}''"

fun json_value :: "any \<Rightarrow> string"
  and json_elems :: "any list \<Rightarrow> string list"
  and json_fields :: "(string \<times> any) list \<Rightarrow> (string \<times> string) list" where
  "json_value (GoString s) = json_string s"
| "json_value (GoFloat64 f) = FormatFloat f"
| "json_value (GoBool b) = (if b then ''true'' else ''false'')"
| "json_value GoNil = ''null''"
| "json_value (GoSlice xs) = CHR ''['' # commas (json_elems xs) @ '']''"
| "json_value (GoMap kvs) = json_object (sort_key fst (json_fields kvs))"
| "json_elems [] = []"
| "json_elems (x # xs) = json_value x # json_elems xs"
| "json_fields [] = []"
| "json_fields (kv # kvs) = (fst kv, json_value (snd kv)) # json_fields kvs"

definition go_json_Marshal :: "anyitem exportFormat \<Rightarrow> error + string" where
  "go_json_Marshal d =
     Inr (json_object
       [(''TableName'', json_string (TableName d)),
        (''PrimaryKey'', json_string (PrimaryKey d)),
        (''RangeKey'', json_string (RangeKey d)),
        (''Items'', json_value (GoSlice (map GoMap (Items d))))])"

subsection \<open>The service\<close>

text \<open>
  A table is its key schema and its items, no two of them with the same key. A write
  needs the table to exist and the item to have every key attribute; it replaces the
  item of the same key or adds one. A scan answers with pages of at most \<open>Suc n\<close> items
  and names the key of the last item of a page as long as items remain after it.
\<close>

record ddb_table =
  tbl_KeySchema :: "key_schema_element list"
  tbl_Items :: "avitem list"

type_synonym ddb = "string \<rightharpoonup> ddb_table"

definition key_names :: "key_schema_element list \<Rightarrow> string list" where
  "key_names ks =
     List.map_filter
       (\<lambda>k. if KeyType k = KeyTypeHash \<or> KeyType k = KeyTypeRange then AttributeName k else None)
       ks"

definition item_key :: "string list \<Rightarrow> avitem \<Rightarrow> avitem option" where
  "item_key names item = those (map (\<lambda>n. map_option (Pair n) (map_of item n)) names)"

fun upsert :: "string list \<Rightarrow> avitem \<Rightarrow> avitem list \<Rightarrow> avitem list" where
  "upsert names item [] = [item]"
| "upsert names item (x # xs) =
     (if item_key names x = item_key names item then item # xs
      else x # upsert names item xs)"

definition ddb_DescribeTable ::
  "ddb \<Rightarrow> string \<Rightarrow> (error + describe_table_output) \<times> ddb" where
  "ddb_DescribeTable s tn =
     (case s tn of
        None \<Rightarrow> (Inl (Error ''ResourceNotFoundException''), s)
      | Some t \<Rightarrow>
          (Inr \<lparr>Table = Some \<lparr>td_TableName = Some tn, KeySchema = tbl_KeySchema t\<rparr>\<rparr>, s))"

definition ddb_PutItem :: "ddb \<Rightarrow> string \<Rightarrow> avitem \<Rightarrow> (error + unit) \<times> ddb" where
  "ddb_PutItem s tn item =
     (case s tn of
        None \<Rightarrow> (Inl (Error ''ResourceNotFoundException''), s)
      | Some t \<Rightarrow>
          (case item_key (key_names (tbl_KeySchema t)) item of
             None \<Rightarrow> (Inl (Error ''ValidationException''), s)
           | Some k \<Rightarrow>
               (Inr (),
                s(tn \<mapsto> t\<lparr>tbl_Items :=
                    upsert (key_names (tbl_KeySchema t)) item (tbl_Items t)\<rparr>))))"

definition items_after :: "string list \<Rightarrow> avitem \<Rightarrow> avitem list \<Rightarrow> avitem list" where
  "items_after names k items = drop 1 (dropWhile (\<lambda>x. item_key names x \<noteq> Some k) items)"

definition ddb_Scan ::
  "nat \<Rightarrow> ddb \<Rightarrow> string \<Rightarrow> avitem option \<Rightarrow> (error + avitem scan_output) \<times> ddb" where
  "ddb_Scan n s tn tok =
     (case s tn of
        None \<Rightarrow> (Inl (Error ''ResourceNotFoundException''), s)
      | Some t \<Rightarrow>
          (let names = key_names (tbl_KeySchema t);
               rest = (case tok of
                         None \<Rightarrow> tbl_Items t
                       | Some k \<Rightarrow> items_after names k (tbl_Items t))
           in (Inr \<lparr>so_Items = take (Suc n) rest,
                    LastEvaluatedKey =
                      (if Suc n < length rest then item_key names (rest ! n) else None)\<rparr>,
               s)))"

definition ddb_client :: "nat \<Rightarrow> (ddb, avitem) client" where
  "ddb_client n =
     \<lparr>DescribeTable = ddb_DescribeTable, Scan = ddb_Scan n, PutItem = ddb_PutItem\<rparr>"

subsection \<open>Reading JSON\<close>

text \<open>
  \<^verbatim>\<open>json.Unmarshal\<close> in two steps: the text is parsed into a tree, and the tree is
  stored into the \<^verbatim>\<open>exportFormat\<close>. The parser counts its calls down from a number
  above the length of the text. Numbers are read where \<open>ParseFloat\<close> is modelled;
  the model answers a text with any other number with an error, as it does for text
  that is not JSON.
\<close>

datatype json =
    JString string
  | JNumber int
  | JBool bool
  | JNull
  | JArray "json list"
  | JObject "(string \<times> json) list"

definition is_ws :: "char \<Rightarrow> bool" where
  "is_ws c = (c = CHR '' '' \<or> c = CHR 0x09 \<or> c = CHR 0x0A \<or> c = CHR 0x0D)"

definition skip_ws :: "string \<Rightarrow> string" where
  "skip_ws s = dropWhile is_ws s"

definition hex_val :: "char \<Rightarrow> nat option" where
  "hex_val c =
     (case digit_val c of
        Some d \<Rightarrow> Some d
      | None \<Rightarrow>
          if c = CHR ''a'' \<or> c = CHR ''A'' then Some 10
          else if c = CHR ''b'' \<or> c = CHR ''B'' then Some 11
          else if c = CHR ''c'' \<or> c = CHR ''C'' then Some 12
          else if c = CHR ''d'' \<or> c = CHR ''D'' then Some 13
          else if c = CHR ''e'' \<or> c = CHR ''E'' then Some 14
          else if c = CHR ''f'' \<or> c = CHR ''F'' then Some 15
          else None)"

fun hex_digits :: "string \<Rightarrow> nat \<Rightarrow> nat option" where
  "hex_digits [] acc = Some acc"
| "hex_digits (c # cs) acc =
     (case hex_val c of None \<Rightarrow> None | Some d \<Rightarrow> hex_digits cs (16 * acc + d))"

definition unescape :: "char \<Rightarrow> char option" where
  "unescape e =
     (if e = CHR 0x22 \<or> e = CHR 0x5C \<or> e = CHR ''/'' then Some e
      else if e = CHR ''b'' then Some (CHR 0x08)
      else if e = CHR ''f'' then Some (CHR 0x0C)
      else if e = CHR ''n'' then Some (CHR 0x0A)
      else if e = CHR ''r'' then Some (CHR 0x0D)
      else if e = CHR ''t'' then Some (CHR 0x09)
      else None)"

text \<open>
  \<^verbatim>\<open>getu4\<close>: the four hexadecimal digits of an escape by code point, at the head of
  the text.
\<close>

definition getu4 :: "string \<Rightarrow> nat option" where
  "getu4 s =
     (if take 2 s = [CHR 0x5C, CHR ''u''] \<and> 6 \<le> length s
      then hex_digits (take 4 (drop 2 s)) 0 else None)"

text \<open>
  The bytes written for the escape with the value \<open>r\<close>, the text after it being \<open>rest\<close>,
  and the number of bytes of \<open>rest\<close> read with it: a second escape when the two are a
  surrogate pair. A surrogate with no partner gives the replacement character.
\<close>

definition escaped_rune :: "nat \<Rightarrow> string \<Rightarrow> string \<times> nat" where
  "escaped_rune r rest =
     (if 55296 \<le> r \<and> r < 57344 then
        (case getu4 rest of
           None \<Rightarrow> (replacement, 0)
         | Some r1 \<Rightarrow>
             if r < 56320 \<and> 56320 \<le> r1 \<and> r1 < 57344
             then (encode_rune ((r - 55296) * 1024 + (r1 - 56320) + 65536), 6)
             else (replacement, 0))
      else (encode_rune r, 0))"

text \<open>
  The body of a string, after its opening quote: the bytes it stands for, and the text
  after its closing quote. A byte that is not part of a well-formed encoding is read
  as the replacement character.
\<close>

fun string_body :: "string \<Rightarrow> string \<Rightarrow> (string \<times> string) option" where
  "string_body [] acc = None"
| "string_body (c # cs) acc =
     (if c = CHR 0x22 then Some (acc, cs)
      else if c = CHR 0x5C then
        (case cs of
           [] \<Rightarrow> None
         | e # es \<Rightarrow>
             if e = CHR ''u'' then
               (case getu4 (c # cs) of
                  None \<Rightarrow> None
                | Some r \<Rightarrow>
                    string_body (drop (4 + snd (escaped_rune r (drop 4 es))) es)
                      (acc @ fst (escaped_rune r (drop 4 es))))
             else (case unescape e of
                     None \<Rightarrow> None
                   | Some x \<Rightarrow> string_body es (acc @ [x])))
      else if (of_char c :: nat) < 32 then None
      else if in_bytes 0 127 c then string_body cs (acc @ [c])
      else
        (case utf8_width (c # cs) of
           None \<Rightarrow> string_body cs (acc @ replacement)
         | Some n \<Rightarrow> string_body (drop (n - 1) cs) (acc @ c # take (n - 1) cs)))"

definition is_num_char :: "char \<Rightarrow> bool" where
  "is_num_char c = (c \<in> set ''+-.0123456789eE'')"

definition json_int :: "string \<Rightarrow> int option" where
  "json_int tok =
     (let body = (if take 1 tok = ''-'' then drop 1 tok else tok)
      in if body = [] \<or> take 1 tok = ''+'' \<or> (1 < length body \<and> take 1 body = ''0'') then None
         else (case ParseFloat tok of Inl e \<Rightarrow> None | Inr i \<Rightarrow> Some i))"

definition number :: "string \<Rightarrow> (json \<times> string) option" where
  "number s =
     (case json_int (takeWhile is_num_char s) of
        None \<Rightarrow> None
      | Some i \<Rightarrow> Some (JNumber i, dropWhile is_num_char s))"

fun parse_value :: "nat \<Rightarrow> string \<Rightarrow> (json \<times> string) option"
  and parse_elems :: "nat \<Rightarrow> string \<Rightarrow> json list \<Rightarrow> (json list \<times> string) option"
  and parse_members ::
    "nat \<Rightarrow> string \<Rightarrow> (string \<times> json) list \<Rightarrow> ((string \<times> json) list \<times> string) option" where
  "parse_value 0 s = None"
| "parse_value (Suc n) s =
     (case skip_ws s of
        [] \<Rightarrow> None
      | c # cs \<Rightarrow>
          if c = CHR ''{'' then
            (if take 1 (skip_ws cs) = ''}'' then Some (JObject [], drop 1 (skip_ws cs))
             else (case parse_members n cs [] of
                     None \<Rightarrow> None
                   | Some (ms, r) \<Rightarrow> Some (JObject ms, r)))
          else if c = CHR ''['' then
            (if take 1 (skip_ws cs) = '']'' then Some (JArray [], drop 1 (skip_ws cs))
             else (case parse_elems n cs [] of
                     None \<Rightarrow> None
                   | Some (xs, r) \<Rightarrow> Some (JArray xs, r)))
          else if c = CHR 0x22 then
            (case string_body cs [] of
               None \<Rightarrow> None
             | Some (str, r) \<Rightarrow> Some (JString str, r))
          else if take 4 (c # cs) = ''true'' then Some (JBool True, drop 3 cs)
          else if take 5 (c # cs) = ''false'' then Some (JBool False, drop 4 cs)
          else if take 4 (c # cs) = ''null'' then Some (JNull, drop 3 cs)
          else number (c # cs))"
| "parse_elems 0 s acc = None"
| "parse_elems (Suc n) s acc =
     (case parse_value n s of
        None \<Rightarrow> None
      | Some (v, r) \<Rightarrow>
          (case skip_ws r of
             [] \<Rightarrow> None
           | c # cs \<Rightarrow>
               if c = CHR '','' then parse_elems n cs (acc @ [v])
               else if c = CHR '']'' then Some (acc @ [v], cs)
               else None))"
| "parse_members 0 s acc = None"
| "parse_members (Suc n) s acc =
     (case skip_ws s of
        [] \<Rightarrow> None
      | c # cs \<Rightarrow>
          if c \<noteq> CHR 0x22 then None
          else (case string_body cs [] of
                  None \<Rightarrow> None
                | Some (k, r) \<Rightarrow>
                    (case skip_ws r of
                       [] \<Rightarrow> None
                     | c2 # r2 \<Rightarrow>
                         if c2 \<noteq> CHR '':'' then None
                         else (case parse_value n r2 of
                                 None \<Rightarrow> None
                               | Some (v, r3) \<Rightarrow>
                                   (case skip_ws r3 of
                                      [] \<Rightarrow> None
                                    | c3 # r4 \<Rightarrow>
                                        if c3 = CHR '','' then parse_members n r4 (acc @ [(k, v)])
                                        else if c3 = CHR ''}'' then Some (acc @ [(k, v)], r4)
                                        else None)))))"

definition parse_json :: "string \<Rightarrow> json option" where
  "parse_json s =
     (case parse_value (Suc (length s)) s of
        None \<Rightarrow> None
      | Some (v, r) \<Rightarrow> if skip_ws r = [] then Some v else None)"


text \<open>
  A Go map built from the members of an object: the later of two equal keys wins. The
  association list is kept in the order of its keys.
\<close>

fun set_key :: "string \<Rightarrow> 'a \<Rightarrow> (string \<times> 'a) list \<Rightarrow> (string \<times> 'a) list" where
  "set_key k v [] = [(k, v)]"
| "set_key k v (kv # kvs) =
     (if k = fst kv then (k, v) # kvs
      else if k < fst kv then (k, v) # kv # kvs
      else kv # set_key k v kvs)"

definition go_map :: "(string \<times> 'a) list \<Rightarrow> (string \<times> 'a) list" where
  "go_map ms = foldl (\<lambda>m kv. set_key (fst kv) (snd kv) m) [] ms"

fun to_any :: "json \<Rightarrow> any"
  and to_any_list :: "json list \<Rightarrow> any list"
  and to_any_members :: "(string \<times> json) list \<Rightarrow> (string \<times> any) list" where
  "to_any (JString s) = GoString s"
| "to_any (JNumber i) = GoFloat64 i"
| "to_any (JBool b) = GoBool b"
| "to_any JNull = GoNil"
| "to_any (JArray xs) = GoSlice (to_any_list xs)"
| "to_any (JObject ms) = GoMap (go_map (to_any_members ms))"
| "to_any_list [] = []"
| "to_any_list (x # xs) = to_any x # to_any_list xs"
| "to_any_members [] = []"
| "to_any_members (kv # kvs) = (fst kv, to_any (snd kv)) # to_any_members kvs"

text \<open>
  Storing into the struct. A key names a field when \<^verbatim>\<open>encoding/json\<close> folds both to the
  same name: the case of a letter does not count, the long s (U+017F) counts as an s and
  the Kelvin sign (U+212A) as a k. No other code point folds to a letter of the four
  field names, so every other byte is left as it is. Other keys are skipped, \<^verbatim>\<open>null\<close>
  leaves a field as it is, and a value of the wrong kind is an error. Of two members
  that name one of the string fields the later wins; a text with two members that name
  \<^verbatim>\<open>Items\<close> is outside the model.
\<close>

definition to_lower :: "char \<Rightarrow> char" where
  "to_lower c =
     (if 65 \<le> (of_char c :: nat) \<and> (of_char c :: nat) \<le> 90
      then char_of (of_char c + (32 :: nat)) else c)"

fun fold_name :: "string \<Rightarrow> string" where
  "fold_name [] = []"
| "fold_name (c # cs) =
     (if c = CHR 0xC5 \<and> take 1 cs = [CHR 0xBF] then CHR ''s'' # fold_name (drop 1 cs)
      else if c = CHR 0xE2 \<and> take 2 cs = [CHR 0x84, CHR 0xAA] then CHR ''k'' # fold_name (drop 2 cs)
      else to_lower c # fold_name cs)"

definition string_field :: "json \<Rightarrow> error + string option" where
  "string_field v =
     (case v of
        JString s \<Rightarrow> Inr (Some s)
      | JNull \<Rightarrow> Inr None
      | _ \<Rightarrow> Inl (Error ''json: cannot unmarshal into Go struct field of type string''))"

fun item_values :: "json list \<Rightarrow> error + anyitem list" where
  "item_values [] = Inr []"
| "item_values (v # vs) =
     (case (case v of
              JObject ms \<Rightarrow> Inr (go_map (to_any_members ms))
            | JNull \<Rightarrow> Inr []
            | _ \<Rightarrow> Inl (Error ''json: cannot unmarshal into Go struct field of type map'')) of
        Inl e \<Rightarrow> Inl e
      | Inr x \<Rightarrow> (case item_values vs of Inl e \<Rightarrow> Inl e | Inr xs \<Rightarrow> Inr (x # xs)))"

definition items_field :: "json \<Rightarrow> error + anyitem list option" where
  "items_field v =
     (case v of
        JArray xs \<Rightarrow> (case item_values xs of Inl e \<Rightarrow> Inl e | Inr its \<Rightarrow> Inr (Some its))
      | JNull \<Rightarrow> Inr None
      | _ \<Rightarrow> Inl (Error ''json: cannot unmarshal into Go struct field of type slice''))"

definition set_field ::
  "string \<times> json \<Rightarrow> anyitem exportFormat \<Rightarrow> error + anyitem exportFormat" where
  "set_field kv d =
     (if fold_name (fst kv) = ''tablename'' then
        (case string_field (snd kv) of
           Inl e \<Rightarrow> Inl e
         | Inr None \<Rightarrow> Inr d
         | Inr (Some s) \<Rightarrow> Inr (d\<lparr>TableName := s\<rparr>))
      else if fold_name (fst kv) = ''primarykey'' then
        (case string_field (snd kv) of
           Inl e \<Rightarrow> Inl e
         | Inr None \<Rightarrow> Inr d
         | Inr (Some s) \<Rightarrow> Inr (d\<lparr>PrimaryKey := s\<rparr>))
      else if fold_name (fst kv) = ''rangekey'' then
        (case string_field (snd kv) of
           Inl e \<Rightarrow> Inl e
         | Inr None \<Rightarrow> Inr d
         | Inr (Some s) \<Rightarrow> Inr (d\<lparr>RangeKey := s\<rparr>))
      else if fold_name (fst kv) = ''items'' then
        (case items_field (snd kv) of
           Inl e \<Rightarrow> Inl e
         | Inr None \<Rightarrow> Inr d
         | Inr (Some its) \<Rightarrow> Inr (d\<lparr>Items := its\<rparr>))
      else Inr d)"

fun set_fields ::
  "(string \<times> json) list \<Rightarrow> anyitem exportFormat \<Rightarrow> error + anyitem exportFormat" where
  "set_fields [] d = Inr d"
| "set_fields (kv # ms) d =
     (case set_field kv d of
        Inl e \<Rightarrow> Inl e
      | Inr d' \<Rightarrow> set_fields ms d')"

definition zero_exportFormat :: "anyitem exportFormat" where
  "zero_exportFormat = \<lparr>TableName = [], PrimaryKey = [], RangeKey = [], Items = []\<rparr>"

definition store_members :: "(string \<times> json) list \<Rightarrow> error + anyitem exportFormat" where
  "store_members ms =
     (if length (filter (\<lambda>kv. fold_name (fst kv) = ''items'') ms) \<le> 1
      then set_fields ms zero_exportFormat
      else Inl (Error ''JSON outside the model''))"

definition go_json_Unmarshal :: "string \<Rightarrow> error + anyitem exportFormat" where
  "go_json_Unmarshal raw =
     (case parse_json raw of
        None \<Rightarrow> Inl (Error ''invalid character, or JSON outside the model'')
      | Some JNull \<Rightarrow> Inr zero_exportFormat
      | Some (JObject ms) \<Rightarrow> store_members ms
      | Some _ \<Rightarrow> Inl (Error ''json: cannot unmarshal into Go value of type main.exportFormat''))"

text \<open>
  The text \<open>raw\<close> is an object, or \<^verbatim>\<open>null\<close>, and no member of it names the field \<open>f\<close>
  (given in lower case).
\<close>

definition absent :: "string \<Rightarrow> string \<Rightarrow> bool" where
  "absent f raw =
     (case parse_json raw of
        Some (JObject ms) \<Rightarrow> list_all (\<lambda>kv. fold_name (fst kv) \<noteq> f) ms
      | Some JNull \<Rightarrow> True
      | _ \<Rightarrow> False)"

definition go_codecs :: "(avitem, anyitem) codecs" where
  "go_codecs =
     \<lparr>UnmarshalListOfMaps = go_UnmarshalListOfMaps, MarshalMap = go_MarshalMap,
      json_Marshal = go_json_Marshal, json_Unmarshal = go_json_Unmarshal\<rparr>"

subsection \<open>main\<close>

text \<open>
  What a run of the process leaves: the arguments of its \<^verbatim>\<open>fmt.Println\<close> calls, and how
  it ends. \<^verbatim>\<open>log.Fatal\<close> writes the error to the standard error stream and exits with
  status 1. The configuration is loaded, and the client made from it, outside the program.
\<close>

datatype status = Exit nat | Fatal error | Crash

definition usage_text :: string where
  "usage_text =
     concat (map (\<lambda>l. CHR 0x0A # l)
       [''DynamoDB Migrator'',
        ''================='',
        [],
        ''To export:'',
        [],
        ''ddbm --table foo'',
        [],
        ''This will print to STDOUT, so direct the output to a file:'',
        [],
        ''ddbm --table foo > /path/to/file.json'',
        [],
        ''To import:'',
        [],
        ''ddbm --table foo --import /path/to/file.json'']) @ [CHR 0x0A]"

definition main ::
  "string \<Rightarrow> string \<Rightarrow> (error + ('s, 'av) client) \<Rightarrow> environment \<Rightarrow> ('av, 'any) codecs
     \<Rightarrow> ('s, 'av) world \<Rightarrow> (string list \<times> status \<times> ('s, 'av) world) option" where
  "main tableName importPath cfg env lib w =
     (if tableName = [] then Some ([usage_text], Exit 1, w)
      else
        (case cfg of
           Inl e \<Rightarrow> Some ([], Fatal e, w)
         | Inr cl \<Rightarrow>
             if importPath \<noteq> [] then
               (case importFromFile tableName env cl lib importPath w of
                  (Inl e, w') \<Rightarrow> Some ([], Fatal e, w')
                | (Inr u, w') \<Rightarrow> Some ([], Exit 0, w'))
             else
               (case export tableName cl lib w of
                  None \<Rightarrow> None
                | Some (Inl (Err e), w') \<Rightarrow> Some ([], Fatal e, w')
                | Some (Inl Panic, w') \<Rightarrow> Some ([], Crash, w')
                | Some (Inr out, w') \<Rightarrow> Some ([out], Exit 0, w'))))"

subsection \<open>What a table accepts, and what a document can hold\<close>

text \<open>
  The items of a document that a table with the key attributes \<open>ns\<close> takes, one after
  the other, up to the first that cannot be encoded or lacks a key attribute, and the
  result of the import then.
\<close>

fun written :: "(avitem, 'any) codecs \<Rightarrow> string list \<Rightarrow> 'any list \<Rightarrow> avitem list \<times> (error + unit)" where
  "written lib ns [] = ([], Inr ())"
| "written lib ns (x # xs) =
     (case MarshalMap lib x of
        Inl e \<Rightarrow> ([], Inl e)
      | Inr m \<Rightarrow>
          (case item_key ns m of
             None \<Rightarrow> ([], Inl (Error ''ValidationException''))
           | Some k \<Rightarrow> (case written lib ns xs of (ms, r) \<Rightarrow> (m # ms, r))))"

text \<open>The bytes on the standard output after the given \<^verbatim>\<open>fmt.Println\<close> calls.\<close>

definition stdout_text :: "string list \<Rightarrow> string" where
  "stdout_text ls = concat (map (\<lambda>l. l @ [CHR 0x0A]) ls)"

text \<open>
  The items \<open>xs\<close> of the table \<open>tn\<close> with the key schema \<open>ks\<close> are representable in the
  encoding of the document: decoding them, writing the document, reading the printed
  text back and encoding the items read gives \<open>xs\<close> again.
\<close>

definition representable ::
  "(avitem, 'any) codecs \<Rightarrow> string \<Rightarrow> key_schema_element list \<Rightarrow> avitem list \<Rightarrow> bool" where
  "representable lib tn ks xs =
     (case key_schema_loop ks \<lparr>TableName = tn, PrimaryKey = [], RangeKey = [], Items = []\<rparr> of
        Inl f \<Rightarrow> False
      | Inr d \<Rightarrow>
          (case UnmarshalListOfMaps lib xs of
             Inl e \<Rightarrow> False
           | Inr ys \<Rightarrow>
               (case json_Marshal lib (d\<lparr>Items := ys\<rparr>) of
                  Inl e \<Rightarrow> False
                | Inr dump \<Rightarrow>
                    (case json_Unmarshal lib (stdout_text [dump]) of
                       Inl e \<Rightarrow> False
                     | Inr data \<Rightarrow> map (MarshalMap lib) (Items data) = map Inr xs))))"

section \<open>A table and its document\<close>

text \<open>
  The table \<^verbatim>\<open>foo\<close> with the hash key \<^verbatim>\<open>id\<close> and two items, the document of its export,
  and a second table \<^verbatim>\<open>bar\<close> with the same schema and no items.
\<close>

definition foo_schema :: "key_schema_element list" where
  "foo_schema = [\<lparr>AttributeName = Some ''id'', KeyType = KeyTypeHash\<rparr>]"

definition item_a :: avitem where
  "item_a = [(''id'', MemberS ''a''), (''v'', MemberN ''1'')]"

definition item_b :: avitem where
  "item_b = [(''id'', MemberS ''b''), (''v'', MemberN ''2'')]"

definition foo_db :: ddb where
  "foo_db =
     [''foo'' \<mapsto> \<lparr>tbl_KeySchema = foo_schema, tbl_Items = [item_a, item_b]\<rparr>,
      ''bar'' \<mapsto> \<lparr>tbl_KeySchema = foo_schema, tbl_Items = []\<rparr>]"

definition foo_doc :: string where
  \<open>foo_doc =
     ''{"TableName":"foo","PrimaryKey":"id","RangeKey":"","Items":[{"id":"a","v":1},{"id":"b","v":2}]}''\<close>

definition foo_data :: "anyitem exportFormat" where
  "foo_data =
     \<lparr>TableName = ''foo'', PrimaryKey = ''id'', RangeKey = [],
      Items = [[(''id'', GoString ''a''), (''v'', GoFloat64 1)],
               [(''id'', GoString ''b''), (''v'', GoFloat64 2)]]\<rparr>"

text \<open>Two documents with an item that has no \<^verbatim>\<open>id\<close>, at its first and its second place.\<close>

definition bad_first_doc :: string where
  \<open>bad_first_doc = ''{"Items":[{"v":2},{"id":"a","v":1}]}''\<close>

definition bad_second_doc :: string where
  \<open>bad_second_doc = ''{"Items":[{"id":"a","v":1},{"v":2},{"id":"b","v":2}]}''\<close>

definition start :: "'s \<Rightarrow> ('s, 'av) world" where
  "start s = \<lparr>store = s, requests = []\<rparr>"

text \<open>
  An environment with the text \<open>raw\<close> in the file \<^verbatim>\<open>foo.json\<close>, and a form that leaves
  \<open>confirm\<close> in the variable and returns \<open>err\<close>.
\<close>

definition file_env :: "string \<Rightarrow> bool \<Rightarrow> error option \<Rightarrow> environment" where
  "file_env raw confirm err =
     \<lparr>ReadFile = (\<lambda>path. if path = ''foo.json'' then Inr raw
                          else Inl (Error ''open: no such file or directory'')),
      form_Run = (\<lambda>title. (confirm, err))\<rparr>"

text \<open>A service that answers the first page of a scan and refuses every later one.\<close>

definition throttled_client :: "(ddb, avitem) client" where
  "throttled_client =
     \<lparr>DescribeTable = ddb_DescribeTable,
      Scan = (\<lambda>s tn tok. if tok = None then ddb_Scan 0 s tn tok
                          else (Inl (Error ''ProvisionedThroughputExceededException''), s)),
      PutItem = ddb_PutItem\<rparr>"

text \<open>A table with a hash key and a range key.\<close>

definition orders_schema :: "key_schema_element list" where
  "orders_schema =
     [\<lparr>AttributeName = Some ''customer'', KeyType = KeyTypeHash\<rparr>,
      \<lparr>AttributeName = Some ''day'', KeyType = KeyTypeRange\<rparr>]"

definition orders_db :: ddb where
  "orders_db =
     [''orders'' \<mapsto>
        \<lparr>tbl_KeySchema = orders_schema,
         tbl_Items = [[(''customer'', MemberS ''c''), (''day'', MemberN ''7'')]]\<rparr>]"

definition orders_doc :: string where
  \<open>orders_doc =
     ''{"TableName":"orders","PrimaryKey":"customer","RangeKey":"day","Items":[{"customer":"c","day":7}]}''\<close>

text \<open>A document with no field but \<^verbatim>\<open>Items\<close>.\<close>

definition only_items_doc :: string where
  \<open>only_items_doc = ''{"Items":[{"id":"a","v":1}]}''\<close>

section \<open>The loops\<close>

lemma put_loop_prefix:
  "map (MarshalMap lib) pre = map Inr ms \<Longrightarrow> put_all cl tn ms (store w) = Some s1 \<Longrightarrow>
   put_loop tn cl lib (pre @ post) w =
     put_loop tn cl lib post \<lparr>store = s1, requests = requests w @ map (PutItemReq tn) ms\<rparr>"
proof (induction pre arbitrary: ms w)
  case Nil
  then show ?case by (cases w) simp
next
  case (Cons x pre)
  then obtain m ms' where ms: "ms = m # ms'" and mx: "MarshalMap lib x = Inr m"
    and rest: "map (MarshalMap lib) pre = map Inr ms'"
    by (cases ms) auto
  from Cons.prems(2) ms obtain u s' where put: "PutItem cl (store w) tn m = (Inr u, s')"
    and all: "put_all cl tn ms' s' = Some s1"
    by (auto split: prod.splits sum.splits)
  let ?w' = "\<lparr>store = s', requests = requests w @ [PutItemReq tn m]\<rparr>"
  have "put_loop tn cl lib ((x # pre) @ post) w = put_loop tn cl lib (pre @ post) ?w'"
    using mx put by (simp add: client_PutItem_def)
  also have "\<dots> = put_loop tn cl lib post
      \<lparr>store = s1, requests = requests ?w' @ map (PutItemReq tn) ms'\<rparr>"
    using Cons.IH [OF rest, of ?w'] all by simp
  finally show ?case using ms by simp
qed

lemma put_loop_fails_at:
  assumes "map (MarshalMap lib) pre = map Inr ms"
    and "put_all cl tn ms (store w) = Some s1"
    and "MarshalMap lib item = Inr m"
    and "PutItem cl s1 tn m = (Inl e, s2)"
  shows "put_loop tn cl lib (pre @ item # post) w =
     (Inl e, \<lparr>store = s2, requests = requests w @ map (PutItemReq tn) (ms @ [m])\<rparr>)"
  using assms by (simp add: put_loop_prefix client_PutItem_def)

lemma put_loop_requests:
  "put_loop tn cl lib xs w = (r, w') \<Longrightarrow>
   \<exists>ms. requests w' = requests w @ map (PutItemReq tn) ms"
proof (induction xs arbitrary: w)
  case Nil
  then show ?case by simp
next
  case (Cons x xs)
  show ?case
  proof (cases "MarshalMap lib x")
    case (Inl e)
    with Cons.prems show ?thesis by simp
  next
    case (Inr m)
    obtain r1 s1 where p: "PutItem cl (store w) tn m = (r1, s1)" by (cases "PutItem cl (store w) tn m")
    let ?w1 = "\<lparr>store = s1, requests = requests w @ [PutItemReq tn m]\<rparr>"
    show ?thesis
    proof (cases r1)
      case (Inl e)
      with Cons.prems Inr p have "w' = ?w1" by (simp add: client_PutItem_def)
      then have "requests w' = requests w @ map (PutItemReq tn) [m]" by simp
      then show ?thesis by blast
    next
      case (Inr u)
      with Cons.prems \<open>MarshalMap lib x = Inr m\<close> p
      have "put_loop tn cl lib xs ?w1 = (r, w')" by (simp add: client_PutItem_def)
      from Cons.IH [OF this] obtain ms where "requests w' = requests ?w1 @ map (PutItemReq tn) ms" by blast
      then have "requests w' = requests w @ map (PutItemReq tn) (m # ms)" by simp
      then show ?thesis by blast
    qed
  qed
qed


lemma scan_loop_done:
  "\<not> HasMorePages p \<Longrightarrow> scan_loop cl tn p items w = Some (Inr items, w)"
  by (subst scan_loop.simps) simp

lemma scan_loop_error:
  "HasMorePages p \<Longrightarrow> Scan cl (store w) tn (nextToken p) = (Inl e, s') \<Longrightarrow>
   scan_loop cl tn p items w =
     Some (Inl e, \<lparr>store = s', requests = requests w @ [ScanReq tn (nextToken p)]\<rparr>)"
  by (subst scan_loop.simps) (simp add: NextPage_def client_Scan_def)

lemma scan_loop_page:
  "HasMorePages p \<Longrightarrow> Scan cl (store w) tn (nextToken p) = (Inr out, s') \<Longrightarrow>
   scan_loop cl tn p items w =
     scan_loop cl tn \<lparr>firstPage = False, nextToken = LastEvaluatedKey out\<rparr>
       (items @ so_Items out)
       \<lparr>store = s', requests = requests w @ [ScanReq tn (nextToken p)]\<rparr>"
  by (subst scan_loop.simps) (simp add: NextPage_def client_Scan_def)

lemma scan_loop_last:
  "HasMorePages p \<Longrightarrow> Scan cl (store w) tn (nextToken p) = (Inr out, s') \<Longrightarrow>
   LastEvaluatedKey out = None \<Longrightarrow>
   scan_loop cl tn p items w =
     Some (Inr (items @ so_Items out),
           \<lparr>store = s', requests = requests w @ [ScanReq tn (nextToken p)]\<rparr>)"
  by (simp add: scan_loop_page scan_loop_done HasMorePages_def)

lemma scan_loop_serves:
  "scan_serves cl tn (nextToken p) (store w) outs = Some (tok, s') \<Longrightarrow> HasMorePages p \<Longrightarrow>
   scan_loop cl tn p items w =
     scan_loop cl tn (if outs = [] then p else \<lparr>firstPage = False, nextToken = tok\<rparr>)
       (items @ concat (map so_Items outs))
       \<lparr>store = s',
        requests = requests w @ map (ScanReq tn) (butlast (nextToken p # map LastEvaluatedKey outs))\<rparr>"
proof (induction outs arbitrary: p w items)
  case Nil
  then show ?case by (cases w) simp
next
  case (Cons out outs)
  from Cons.prems(1) obtain s1 where sc: "Scan cl (store w) tn (nextToken p) = (Inr out, s1)"
    and key: "LastEvaluatedKey out \<noteq> None"
    and rest: "scan_serves cl tn (LastEvaluatedKey out) s1 outs = Some (tok, s')"
    by (auto split: prod.splits sum.splits if_splits)
  let ?p1 = "\<lparr>firstPage = False, nextToken = LastEvaluatedKey out\<rparr>"
  let ?w1 = "\<lparr>store = s1, requests = requests w @ [ScanReq tn (nextToken p)]\<rparr>"
  have more: "HasMorePages ?p1" using key by (simp add: HasMorePages_def)
  have "scan_loop cl tn p items w = scan_loop cl tn ?p1 (items @ so_Items out) ?w1"
    using Cons.prems(2) sc by (rule scan_loop_page)
  also have "\<dots> = scan_loop cl tn (if outs = [] then ?p1 else \<lparr>firstPage = False, nextToken = tok\<rparr>)
       ((items @ so_Items out) @ concat (map so_Items outs))
       \<lparr>store = s',
        requests = requests ?w1 @ map (ScanReq tn) (butlast (nextToken ?p1 # map LastEvaluatedKey outs))\<rparr>"
    using Cons.IH [of ?p1 ?w1 "items @ so_Items out"] rest more by simp
  finally show ?case using rest by (cases outs) auto
qed

lemma scan_serves_token:
  "scan_serves cl tn tok s outs = Some (tok', s') \<Longrightarrow> tok' = last (tok # map LastEvaluatedKey outs)"
  by (induction outs arbitrary: tok s) (auto split: prod.splits sum.splits if_splits)

lemma scan_loop_requests:
  assumes run: "scan_loop cl tn p items w = Some y"
  shows "\<exists>toks. requests (snd y) = requests w @ map (ScanReq tn) toks"
proof (rule scan_loop.raw_induct
    [where P = "\<lambda>cl tn p items w y. \<exists>toks. requests (snd y) = requests w @ map (ScanReq tn) toks",
     OF _ run], goal_cases)
  case (1 loop cl tn p items w y)
  show ?case
  proof (cases "HasMorePages p")
    case False
    with 1(2) have "requests (snd y) = requests w @ map (ScanReq tn) []" by auto
    then show ?thesis by blast
  next
    case True
    obtain r s1 where sc: "Scan cl (store w) tn (nextToken p) = (r, s1)"
      by (cases "Scan cl (store w) tn (nextToken p)")
    let ?w1 = "\<lparr>store = s1, requests = requests w @ [ScanReq tn (nextToken p)]\<rparr>"
    show ?thesis
    proof (cases r)
      case (Inl e)
      with 1(2) True sc have "y = (Inl e, ?w1)"
        by (simp add: NextPage_def client_Scan_def)
      then have "requests (snd y) = requests w @ map (ScanReq tn) [nextToken p]" by simp
      then show ?thesis by blast
    next
      case (Inr out)
      with 1(2) True sc
      have "loop cl tn \<lparr>firstPage = False, nextToken = LastEvaluatedKey out\<rparr>
              (items @ so_Items out) ?w1 = Some y"
        by (simp add: NextPage_def client_Scan_def)
      from 1(1) [OF this] obtain toks
        where "requests (snd y) = requests ?w1 @ map (ScanReq tn) toks" by blast
      then have "requests (snd y) = requests w @ map (ScanReq tn) (nextToken p # toks)" by simp
      then show ?thesis by blast
    qed
  qed
qed


lemma scan_serves_keys:
  "scan_serves cl tn tok s outs = Some r \<Longrightarrow> out \<in> set outs \<Longrightarrow> LastEvaluatedKey out \<noteq> None"
  by (induction outs arbitrary: tok s) (auto split: prod.splits sum.splits if_splits)

lemma scan_loop_reach:
  assumes "scan_serves cl tn None (store w) outs = Some (tok, s2)"
  shows "\<exists>p. HasMorePages p \<and> nextToken p = tok \<and>
     scan_loop cl tn NewScanPaginator [] w =
       scan_loop cl tn p (concat (map so_Items outs))
         \<lparr>store = s2,
          requests = requests w @ map (ScanReq tn) (butlast (None # map LastEvaluatedKey outs))\<rparr>"
proof -
  let ?p = "if outs = [] then NewScanPaginator else \<lparr>firstPage = False, nextToken = tok\<rparr>"
  have tok: "tok = last (None # map LastEvaluatedKey outs)"
    using assms by (rule scan_serves_token)
  have nt: "nextToken ?p = tok" using tok by (simp add: NewScanPaginator_def)
  have more: "HasMorePages ?p"
  proof (cases outs rule: rev_cases)
    case Nil
    then show ?thesis by (simp add: HasMorePages_def NewScanPaginator_def)
  next
    case (snoc outs' out)
    then have "LastEvaluatedKey out \<noteq> None"
      using scan_serves_keys [of cl tn None "store w" outs "(tok, s2)" out] assms by simp
    then show ?thesis using snoc tok by (simp add: HasMorePages_def)
  qed
  have "scan_loop cl tn NewScanPaginator [] w =
      scan_loop cl tn ?p ([] @ concat (map so_Items outs))
        \<lparr>store = s2,
         requests = requests w @ map (ScanReq tn) (butlast (None # map LastEvaluatedKey outs))\<rparr>"
    using scan_loop_serves [of cl tn NewScanPaginator w outs tok s2 "[]"] assms
    by (simp add: NewScanPaginator_def HasMorePages_def)
  with more nt show ?thesis by (intro exI [of _ ?p]) simp
qed

lemma scan_requests_last:
  "map (ScanReq tn) (butlast (None # map LastEvaluatedKey outs))
     @ [ScanReq tn (last (None # map LastEvaluatedKey outs))] = scan_requests tn outs"
proof -
  define toks where "toks = None # map LastEvaluatedKey outs"
  have "toks \<noteq> []" by (simp add: toks_def)
  then have "butlast toks @ [last toks] = toks" by (rule append_butlast_last_id)
  then have "map (ScanReq tn) (butlast toks) @ [ScanReq tn (last toks)] = map (ScanReq tn) toks"
    by (metis list.simps(8) list.simps(9) map_append)
  then show ?thesis by (simp only: scan_requests_def toks_def)
qed

lemma scan_loop_fails_after:
  assumes "scan_serves cl tn None (store w) outs = Some (tok, s2)"
    and "Scan cl s2 tn tok = (Inl e, s3)"
  shows "scan_loop cl tn NewScanPaginator [] w =
     Some (Inl e, \<lparr>store = s3, requests = requests w @ scan_requests tn outs\<rparr>)"
proof -
  from scan_loop_reach [OF assms(1)] obtain p
    where p: "HasMorePages p" "nextToken p = tok"
      and eq: "scan_loop cl tn NewScanPaginator [] w =
        scan_loop cl tn p (concat (map so_Items outs))
          \<lparr>store = s2,
           requests = requests w @ map (ScanReq tn) (butlast (None # map LastEvaluatedKey outs))\<rparr>"
    by blast
  have tok: "tok = last (None # map LastEvaluatedKey outs)"
    using assms(1) by (rule scan_serves_token)
  show ?thesis
    unfolding eq using p assms(2)
    by (subst scan_loop_error [where e = e and s' = s3])
      (simp_all only: world.simps append_assoc tok scan_requests_last)
qed

lemma scan_loop_ends_after:
  assumes "scan_serves cl tn None (store w) outs = Some (tok, s2)"
    and "Scan cl s2 tn tok = (Inr out, s3)"
    and "LastEvaluatedKey out = None"
  shows "scan_loop cl tn NewScanPaginator [] w =
     Some (Inr (concat (map so_Items outs) @ so_Items out),
           \<lparr>store = s3, requests = requests w @ scan_requests tn outs\<rparr>)"
proof -
  from scan_loop_reach [OF assms(1)] obtain p
    where p: "HasMorePages p" "nextToken p = tok"
      and eq: "scan_loop cl tn NewScanPaginator [] w =
        scan_loop cl tn p (concat (map so_Items outs))
          \<lparr>store = s2,
           requests = requests w @ map (ScanReq tn) (butlast (None # map LastEvaluatedKey outs))\<rparr>"
    by blast
  have tok: "tok = last (None # map LastEvaluatedKey outs)"
    using assms(1) by (rule scan_serves_token)
  show ?thesis
    unfolding eq using p assms(2,3)
    by (subst scan_loop_last [where out = out and s' = s3])
      (simp_all only: world.simps append_assoc tok scan_requests_last)
qed

lemma put_loop_codec:
  "put_loop tn cl (lib\<lparr>json_Unmarshal := f\<rparr>) xs w = put_loop tn cl lib xs w"
  by (induction xs arbitrary: w) (auto split: sum.splits prod.splits)

lemma import_requests:
  assumes "importFromFile tn env cl lib path w = (r, w')"
  shows "\<exists>ms. requests w' = requests w @ map (PutItemReq tn) ms"
proof -
  have same: ?thesis if "w' = w"
  proof -
    from that have "requests w' = requests w @ map (PutItemReq tn) []" by simp
    then show ?thesis by blast
  qed
  from assms have "w' = w \<or> (\<exists>xs. put_loop tn cl lib xs w = (r, w'))"
    by (auto simp: importFromFile_def split: sum.splits prod.splits if_splits)
  with same put_loop_requests show ?thesis by blast
qed

section \<open>The steps of export\<close>

lemma key_schema_loop_names:
  "\<forall>k \<in> set ks. AttributeName k \<noteq> None \<Longrightarrow> \<exists>d'. key_schema_loop ks d = Inr d'"
  by (induction ks arbitrary: d) auto

lemma key_schema_loop_range:
  "key_schema_loop ks d = Inr d' \<Longrightarrow>
   \<forall>k \<in> set ks. KeyType k = KeyTypeRange \<longrightarrow> AttributeName k = Some r \<Longrightarrow>
   RangeKey d' = (if \<exists>k \<in> set ks. KeyType k = KeyTypeRange then r else RangeKey d)"
proof (induction ks arbitrary: d)
  case Nil
  then show ?case by simp
next
  case (Cons key keys)
  show ?case
  proof (cases "KeyType key = KeyTypeRange")
    case True
    with Cons.prems have "key_schema_loop keys (d\<lparr>RangeKey := r\<rparr>) = Inr d'" by simp
    from Cons.IH [OF this] Cons.prems(2) True show ?thesis by simp
  next
    case False
    show ?thesis
    proof (cases "KeyType key = KeyTypeHash")
      case True
      with Cons.prems(1) obtain n where "key_schema_loop keys (d\<lparr>PrimaryKey := n\<rparr>) = Inr d'"
        by (auto split: option.splits)
      from Cons.IH [OF this] Cons.prems(2) False show ?thesis by simp
    next
      case notHash: False
      with False Cons.prems(1) have "key_schema_loop keys d = Inr d'" by simp
      from Cons.IH [OF this] Cons.prems(2) False show ?thesis by simp
    qed
  qed
qed

lemma key_schema_loop_hash:
  "key_schema_loop ks d = Inr d' \<Longrightarrow>
   \<forall>k \<in> set ks. KeyType k = KeyTypeHash \<longrightarrow> AttributeName k = Some h \<Longrightarrow>
   PrimaryKey d' = (if \<exists>k \<in> set ks. KeyType k = KeyTypeHash then h else PrimaryKey d)"
proof (induction ks arbitrary: d)
  case Nil
  then show ?case by simp
next
  case (Cons key keys)
  show ?case
  proof (cases "KeyType key = KeyTypeHash")
    case True
    with Cons.prems have "key_schema_loop keys (d\<lparr>PrimaryKey := h\<rparr>) = Inr d'" by simp
    from Cons.IH [OF this] Cons.prems(2) True show ?thesis by simp
  next
    case False
    show ?thesis
    proof (cases "KeyType key = KeyTypeRange")
      case True
      with False Cons.prems(1) obtain n where "key_schema_loop keys (d\<lparr>RangeKey := n\<rparr>) = Inr d'"
        by (auto split: option.splits)
      from Cons.IH [OF this] Cons.prems(2) False show ?thesis by simp
    next
      case notRange: False
      with False Cons.prems(1) have "key_schema_loop keys d = Inr d'" by simp
      from Cons.IH [OF this] Cons.prems(2) False show ?thesis by simp
    qed
  qed
qed

lemma export_data_scan:
  assumes "DescribeTable cl (store w) tn = (Inr \<lparr>Table = Some td\<rparr>, s1)"
    and "td_TableName td = Some n"
    and "key_schema_loop (KeySchema td)
           \<lparr>TableName = n, PrimaryKey = [], RangeKey = [], Items = []\<rparr> = Inr d"
  shows "export_data tn cl lib w =
     (case scan_loop cl tn NewScanPaginator []
             \<lparr>store = s1, requests = requests w @ [DescribeTableReq tn]\<rparr> of
        None \<Rightarrow> None
      | Some (Inl e, w2) \<Rightarrow> Some (Inl (Err e), w2)
      | Some (Inr items, w2) \<Rightarrow>
          (case UnmarshalListOfMaps lib items of
             Inl e \<Rightarrow> Some (Inl (Err e), w2)
           | Inr its \<Rightarrow> Some (Inr (d\<lparr>Items := its\<rparr>), w2)))"
  using assms by (simp add: export_data_def client_DescribeTable_def)

lemma export_from_data:
  "export tn cl lib w = Some (Inr dump, w') \<Longrightarrow>
   \<exists>d. export_data tn cl lib w = Some (Inr d, w') \<and> json_Marshal lib d = Inr dump"
  by (auto simp: export_def split: option.splits prod.splits sum.splits)

lemma export_data_keys:
  assumes "export_data tn cl lib w = Some (Inr d, w')"
    and "DescribeTable cl (store w) tn = (Inr \<lparr>Table = Some td\<rparr>, s1)"
  shows "\<exists>n d0. td_TableName td = Some n \<and>
     key_schema_loop (KeySchema td) \<lparr>TableName = n, PrimaryKey = [], RangeKey = [], Items = []\<rparr>
       = Inr d0 \<and>
     d = d0\<lparr>Items := Items d\<rparr>"
  using assms
  by (auto simp: export_data_def client_DescribeTable_def
      split: option.splits prod.splits sum.splits)

lemma export_done:
  assumes "DescribeTable cl (store w) tn = (Inr \<lparr>Table = Some td\<rparr>, s1)"
    and "td_TableName td = Some n"
    and "key_schema_loop (KeySchema td)
           \<lparr>TableName = n, PrimaryKey = [], RangeKey = [], Items = []\<rparr> = Inr d"
    and "scan_serves cl tn None s1 outs = Some (tok, s2)"
    and "Scan cl s2 tn tok = (Inr out, s3)"
    and "LastEvaluatedKey out = None"
    and "UnmarshalListOfMaps lib (concat (map so_Items outs) @ so_Items out) = Inr its"
    and "json_Marshal lib (d\<lparr>Items := its\<rparr>) = Inr dump"
  shows "export tn cl lib w =
     Some (Inr dump,
           \<lparr>store = s3, requests = requests w @ DescribeTableReq tn # scan_requests tn outs\<rparr>)"
proof -
  let ?w1 = "\<lparr>store = s1, requests = requests w @ [DescribeTableReq tn]\<rparr>"
  have "scan_loop cl tn NewScanPaginator [] ?w1 =
      Some (Inr (concat (map so_Items outs) @ so_Items out),
            \<lparr>store = s3, requests = requests ?w1 @ scan_requests tn outs\<rparr>)"
    by (rule scan_loop_ends_after [where tok = tok and ?s2.0 = s2]) (simp_all add: assms)
  then show ?thesis
    using assms(7,8) by (simp add: export_def export_data_scan [OF assms(1-3)])
qed

lemma export_data_requests:
  assumes "export_data tn cl lib w = Some (r, w')"
  shows "\<exists>toks. requests w' = requests w @ DescribeTableReq tn # map (ScanReq tn) toks"
proof -
  obtain r1 s1 where dt: "DescribeTable cl (store w) tn = (r1, s1)"
    by (cases "DescribeTable cl (store w) tn")
  let ?w1 = "\<lparr>store = s1, requests = requests w @ [DescribeTableReq tn]\<rparr>"
  let ?loop = "scan_loop cl tn NewScanPaginator [] ?w1"
  have early: ?thesis if "w' = ?w1"
  proof -
    from that have "requests w' = requests w @ DescribeTableReq tn # map (ScanReq tn) []"
      by simp
    then show ?thesis by blast
  qed
  have scanned: ?thesis if "?loop = Some y" and "snd y = w'" for y
  proof -
    from scan_loop_requests [OF that(1)] that(2) obtain toks
      where "requests w' = requests ?w1 @ map (ScanReq tn) toks" by blast
    then have "requests w' = requests w @ DescribeTableReq tn # map (ScanReq tn) toks" by simp
    then show ?thesis by blast
  qed
  from assms dt have "w' = ?w1 \<or> (\<exists>y. ?loop = Some y \<and> snd y = w')"
    by (auto simp: export_data_def client_DescribeTable_def
        split: option.splits prod.splits sum.splits)
  with early scanned show ?thesis by blast
qed

section \<open>The service\<close>

lemma upsert_keys:
  "item_key ns ` set (upsert ns m L) = insert (item_key ns m) (item_key ns ` set L)"
  by (induction L) auto

lemma upsert_same_key:
  "item_key ns m = item_key ns m' \<Longrightarrow> upsert ns m' (upsert ns m L) = upsert ns m' L"
  by (induction L) auto

lemma upsert_commute:
  "item_key ns m \<noteq> item_key ns m' \<Longrightarrow> item_key ns m' \<in> item_key ns ` set L \<Longrightarrow>
   upsert ns m' (upsert ns m L) = upsert ns m (upsert ns m' L)"
  by (induction L) auto

lemma fold_upsert_keys:
  "item_key ns ` set (fold (upsert ns) ms L) = item_key ns ` set ms \<union> item_key ns ` set L"
  by (induction ms arbitrary: L) (auto simp: upsert_keys)

lemma upsert_absorbed:
  "\<forall>m' \<in> set ms. item_key ns m' \<in> item_key ns ` set Y \<Longrightarrow>
   upsert ns m (fold (upsert ns) ms (upsert ns m Y)) = upsert ns m (fold (upsert ns) ms Y)"
proof (induction ms arbitrary: Y)
  case Nil
  then show ?case by (simp add: upsert_same_key)
next
  case (Cons m1 rest)
  have present: "\<forall>m' \<in> set rest. item_key ns m' \<in> item_key ns ` set (upsert ns m1 Y)"
    using Cons.prems by (simp add: upsert_keys)
  show ?case
  proof (cases "item_key ns m = item_key ns m1")
    case True
    then show ?thesis by (simp add: upsert_same_key)
  next
    case False
    then have "upsert ns m1 (upsert ns m Y) = upsert ns m (upsert ns m1 Y)"
      using Cons.prems by (intro upsert_commute) simp_all
    then show ?thesis using Cons.IH [OF present] by simp
  qed
qed

lemma fold_upsert_twice:
  "fold (upsert ns) ms (fold (upsert ns) ms L) = fold (upsert ns) ms L"
proof (induction ms rule: rev_induct)
  case Nil
  then show ?case by simp
next
  case (snoc m ms0)
  let ?X = "fold (upsert ns) ms0 L"
  have "\<forall>m' \<in> set ms0. item_key ns m' \<in> item_key ns ` set ?X"
    by (simp add: fold_upsert_keys)
  then have "upsert ns m (fold (upsert ns) ms0 (upsert ns m ?X)) = upsert ns m (fold (upsert ns) ms0 ?X)"
    by (rule upsert_absorbed)
  then show ?case using snoc.IH by simp
qed

lemma put_loop_no_table:
  "store w tn = None \<Longrightarrow>
   store (snd (put_loop tn (ddb_client n) lib xs w)) = store w \<and>
   fst (put_loop tn (ddb_client n) lib xs w) =
     (case xs of
        [] \<Rightarrow> Inr ()
      | x # rest \<Rightarrow>
          (case MarshalMap lib x of
             Inl e \<Rightarrow> Inl e
           | Inr m \<Rightarrow> Inl (Error ''ResourceNotFoundException'')))"
  by (cases xs)
    (auto simp: client_PutItem_def ddb_client_def ddb_PutItem_def split: sum.splits)

lemma put_loop_written:
  "store w tn = Some t \<Longrightarrow>
   fst (put_loop tn (ddb_client n) lib xs w) = snd (written lib (key_names (tbl_KeySchema t)) xs) \<and>
   store (snd (put_loop tn (ddb_client n) lib xs w)) =
     (store w)(tn \<mapsto> t\<lparr>tbl_Items :=
        fold (upsert (key_names (tbl_KeySchema t)))
          (fst (written lib (key_names (tbl_KeySchema t)) xs)) (tbl_Items t)\<rparr>)"
proof (induction xs arbitrary: w t)
  case Nil
  then show ?case by auto
next
  case (Cons x xs)
  let ?ns = "key_names (tbl_KeySchema t)"
  show ?case
  proof (cases "MarshalMap lib x")
    case (Inl e)
    with Cons.prems show ?thesis by auto
  next
    case (Inr m)
    show ?thesis
    proof (cases "item_key ?ns m")
      case None
      with Inr Cons.prems show ?thesis
        by (auto simp: client_PutItem_def ddb_client_def ddb_PutItem_def)
    next
      case (Some k)
      let ?t1 = "t\<lparr>tbl_Items := upsert ?ns m (tbl_Items t)\<rparr>"
      let ?w1 = "\<lparr>store = (store w)(tn \<mapsto> ?t1), requests = requests w @ [PutItemReq tn m]\<rparr>"
      have step: "put_loop tn (ddb_client n) lib (x # xs) w = put_loop tn (ddb_client n) lib xs ?w1"
        using Inr Some Cons.prems
        by (simp add: client_PutItem_def ddb_client_def ddb_PutItem_def)
      have "store ?w1 tn = Some ?t1" by simp
      from Cons.IH [OF this]
      have "fst (put_loop tn (ddb_client n) lib xs ?w1) = snd (written lib ?ns xs)"
        and "store (snd (put_loop tn (ddb_client n) lib xs ?w1)) =
          (store w)(tn \<mapsto> t\<lparr>tbl_Items :=
             fold (upsert ?ns) (fst (written lib ?ns xs)) (upsert ?ns m (tbl_Items t))\<rparr>)"
        by (simp_all add: fun_eq_iff)
      then show ?thesis
        unfolding step using Inr Some by (cases "written lib ?ns xs") simp
    qed
  qed
qed

lemma put_loop_twice:
  assumes "put_loop tn (ddb_client n) lib xs w = (r, w1)"
  shows "\<exists>w2. put_loop tn (ddb_client n) lib xs w1 = (r, w2) \<and> store w2 = store w1"
proof (cases "store w tn")
  case None
  from put_loop_no_table [OF None, of n lib xs] assms
  have s1: "store w1 = store w" and r: "r = (case xs of
        [] \<Rightarrow> Inr ()
      | x # rest \<Rightarrow>
          (case MarshalMap lib x of
             Inl e \<Rightarrow> Inl e
           | Inr m \<Rightarrow> Inl (Error ''ResourceNotFoundException'')))"
    by simp_all
  from s1 None have "store w1 tn = None" by simp
  from put_loop_no_table [OF this, of n lib xs] r
  show ?thesis by (cases "put_loop tn (ddb_client n) lib xs w1") simp
next
  case (Some t)
  let ?ns = "key_names (tbl_KeySchema t)"
  let ?ms = "fst (written lib ?ns xs)"
  let ?t1 = "t\<lparr>tbl_Items := fold (upsert ?ns) ?ms (tbl_Items t)\<rparr>"
  from put_loop_written [OF Some, of n lib xs] assms
  have r: "r = snd (written lib ?ns xs)" and s1: "store w1 = (store w)(tn \<mapsto> ?t1)"
    by simp_all
  from s1 have "store w1 tn = Some ?t1" by simp
  from put_loop_written [OF this, of n lib xs] r s1
  show ?thesis
    by (cases "put_loop tn (ddb_client n) lib xs w1") (simp add: fold_upsert_twice)
qed

lemma items_after_key:
  assumes "distinct (map (item_key ns) (pre @ x # rest))"
    and "item_key ns x = Some k"
  shows "items_after ns k (pre @ x # rest) = rest"
proof -
  have "\<forall>y \<in> set pre. item_key ns y \<noteq> Some k"
    using assms by (fastforce simp: image_iff)
  then have "dropWhile (\<lambda>y. item_key ns y \<noteq> Some k) (pre @ x # rest) =
      dropWhile (\<lambda>y. item_key ns y \<noteq> Some k) (x # rest)"
    by (intro dropWhile_append2) simp
  then show ?thesis using assms(2) by (simp add: items_after_def)
qed

lemma ddb_scan_rest:
  assumes "s tn = Some t"
    and "distinct (map (item_key (key_names (tbl_KeySchema t))) (tbl_Items t))"
    and "\<forall>x \<in> set (tbl_Items t). item_key (key_names (tbl_KeySchema t)) x \<noteq> None"
    and "tbl_Items t = pre @ rest"
    and "tok = (if pre = [] then None else item_key (key_names (tbl_KeySchema t)) (last pre))"
  shows "ddb_Scan n s tn tok =
     (Inr \<lparr>so_Items = take (Suc n) rest,
           LastEvaluatedKey =
             (if Suc n < length rest then item_key (key_names (tbl_KeySchema t)) (rest ! n)
              else None)\<rparr>, s)"
proof (cases "pre = []")
  case True
  with assms show ?thesis by (simp add: ddb_Scan_def Let_def)
next
  case False
  let ?ns = "key_names (tbl_KeySchema t)"
  from False have pre: "pre = butlast pre @ [last pre]" by simp
  then have items: "tbl_Items t = butlast pre @ last pre # rest"
    using assms(4) by (metis append.assoc append_Cons append_Nil)
  from False assms(3,4) obtain k where k: "item_key ?ns (last pre) = Some k"
    by (metis UnCI last_in_set not_Some_eq set_append)
  have "items_after ?ns k (tbl_Items t) = rest"
    unfolding items using assms(2) k by (intro items_after_key) (simp_all add: items)
  with assms(1,5) False k show ?thesis by (simp add: ddb_Scan_def Let_def)
qed

lemma ddb_scan_loop:
  assumes "s tn = Some t"
    and "distinct (map (item_key (key_names (tbl_KeySchema t))) (tbl_Items t))"
    and "\<forall>x \<in> set (tbl_Items t). item_key (key_names (tbl_KeySchema t)) x \<noteq> None"
  shows "tbl_Items t = pre @ rest \<Longrightarrow> store w = s \<Longrightarrow> HasMorePages p \<Longrightarrow>
     nextToken p = (if pre = [] then None else item_key (key_names (tbl_KeySchema t)) (last pre)) \<Longrightarrow>
     \<exists>w'. scan_loop (ddb_client n) tn p acc w = Some (Inr (acc @ rest), w') \<and> store w' = s"
proof (induction "length rest" arbitrary: pre rest p acc w rule: less_induct)
  case less
  let ?ns = "key_names (tbl_KeySchema t)"
  let ?out = "\<lparr>so_Items = take (Suc n) rest,
           LastEvaluatedKey = (if Suc n < length rest then item_key ?ns (rest ! n) else None)\<rparr>"
  let ?w1 = "\<lparr>store = s, requests = requests w @ [ScanReq tn (nextToken p)]\<rparr>"
  have scan: "Scan (ddb_client n) (store w) tn (nextToken p) = (Inr ?out, s)"
    using ddb_scan_rest [where s = s and tn = tn and t = t and pre = pre and rest = rest
        and tok = "nextToken p" and n = n] assms less.prems(1,2,4)
    by (simp add: ddb_client_def)
  show ?case
  proof (cases "Suc n < length rest")
    case False
    then have "LastEvaluatedKey ?out = None" and "take (Suc n) rest = rest" by simp_all
    with scan_loop_last [OF less.prems(3) scan, of acc]
    have "scan_loop (ddb_client n) tn p acc w = Some (Inr (acc @ rest), ?w1)" by simp
    then show ?thesis by simp
  next
    case True
    let ?pre = "pre @ take (Suc n) rest"
    let ?rest = "drop (Suc n) rest"
    let ?p1 = "\<lparr>firstPage = False, nextToken = LastEvaluatedKey ?out\<rparr>"
    have in_items: "rest ! n \<in> set (tbl_Items t)"
      using True less.prems(1) by simp
    with assms(3) have key: "item_key ?ns (rest ! n) \<noteq> None" by blast
    have last: "last ?pre = rest ! n"
      using True by (simp add: take_Suc_conv_app_nth)
    have "\<exists>w'. scan_loop (ddb_client n) tn ?p1 (acc @ take (Suc n) rest) ?w1 =
        Some (Inr ((acc @ take (Suc n) rest) @ ?rest), w') \<and> store w' = s"
    proof (rule less.hyps)
      show "length ?rest < length rest" using True by simp
      show "tbl_Items t = ?pre @ ?rest" using less.prems(1) by simp
      show "store ?w1 = s" by simp
      show "HasMorePages ?p1" using True key by (simp add: HasMorePages_def)
      have "rest \<noteq> []" using True by auto
      then show "nextToken ?p1 = (if ?pre = [] then None else item_key ?ns (last ?pre))"
        using True last by simp
    qed
    moreover have "scan_loop (ddb_client n) tn p acc w =
        scan_loop (ddb_client n) tn ?p1 (acc @ take (Suc n) rest) ?w1"
      using scan_loop_page [OF less.prems(3) scan, of acc] by simp
    ultimately show ?thesis by simp
  qed
qed

lemma fold_upsert_fresh:
  "distinct (map (item_key ns) (L @ xs)) \<Longrightarrow> fold (upsert ns) xs L = L @ xs"
proof (induction xs arbitrary: L)
  case Nil
  then show ?case by simp
next
  case (Cons x xs)
  have fresh: "upsert ns x L = L @ [x]" if "item_key ns x \<notin> item_key ns ` set L" for L
    using that by (induction L) auto
  from Cons.prems have "item_key ns x \<notin> item_key ns ` set L" by auto
  then have "upsert ns x L = L @ [x]" by (rule fresh)
  moreover from Cons.prems have "distinct (map (item_key ns) ((L @ [x]) @ xs))" by simp
  ultimately show ?case using Cons.IH [of "L @ [x]"] by simp
qed

lemma written_all:
  "map (MarshalMap lib) ys = map Inr xs \<Longrightarrow> \<forall>x \<in> set xs. item_key ns x \<noteq> None \<Longrightarrow>
   written lib ns ys = (xs, Inr ())"
proof (induction ys arbitrary: xs)
  case Nil
  then show ?case by simp
next
  case (Cons y ys)
  then obtain x xs' where "xs = x # xs'" "MarshalMap lib y = Inr x"
    "map (MarshalMap lib) ys = map Inr xs'"
    by (cases xs) auto
  with Cons show ?case by auto
qed

lemma ddb_export:
  fixes lib :: "(avitem, 'any) codecs"
  assumes "store w tn = Some t"
    and "distinct (map (item_key (key_names (tbl_KeySchema t))) (tbl_Items t))"
    and "\<forall>x \<in> set (tbl_Items t). item_key (key_names (tbl_KeySchema t)) x \<noteq> None"
    and "key_schema_loop (tbl_KeySchema t)
           \<lparr>TableName = tn, PrimaryKey = [], RangeKey = [], Items = []\<rparr> = Inr d"
    and "UnmarshalListOfMaps lib (tbl_Items t) = Inr ys"
    and "json_Marshal lib (d\<lparr>Items := ys\<rparr>) = Inr dump"
  shows "\<exists>w1. export tn (ddb_client n) lib w = Some (Inr dump, w1) \<and> store w1 = store w"
proof -
  let ?td = "\<lparr>td_TableName = Some tn, KeySchema = tbl_KeySchema t\<rparr>"
  let ?w1 = "\<lparr>store = store w, requests = requests w @ [DescribeTableReq tn]\<rparr>"
  have dt: "DescribeTable (ddb_client n) (store w) tn = (Inr \<lparr>Table = Some ?td\<rparr>, store w)"
    using assms(1) by (simp add: ddb_client_def ddb_DescribeTable_def)
  have "\<exists>w'. scan_loop (ddb_client n) tn NewScanPaginator [] ?w1 =
      Some (Inr ([] @ tbl_Items t), w') \<and> store w' = store w"
    by (rule ddb_scan_loop [where s = "store w" and tn = tn and t = t and pre = "[]"])
      (simp_all add: assms(1-3) NewScanPaginator_def HasMorePages_def)
  then obtain w' where loop: "scan_loop (ddb_client n) tn NewScanPaginator [] ?w1 =
      Some (Inr (tbl_Items t), w')" and st: "store w' = store w"
    by auto
  have "export_data tn (ddb_client n) lib w = Some (Inr (d\<lparr>Items := ys\<rparr>), w')"
    using export_data_scan [OF dt, of tn d lib] assms(4,5) loop by simp
  then have "export tn (ddb_client n) lib w = Some (Inr dump, w')"
    using assms(6) by (simp add: export_def)
  with st show ?thesis by blast
qed

lemma ddb_import_fresh:
  fixes lib :: "(avitem, 'any) codecs"
  assumes "store w tn = Some \<lparr>tbl_KeySchema = ks, tbl_Items = []\<rparr>"
    and "distinct (map (item_key (key_names ks)) xs)"
    and "\<forall>x \<in> set xs. item_key (key_names ks) x \<noteq> None"
    and "map (MarshalMap lib) ys = map Inr xs"
  shows "\<exists>w2. put_loop tn (ddb_client n) lib ys w = (Inr (), w2) \<and>
     store w2 tn = Some \<lparr>tbl_KeySchema = ks, tbl_Items = xs\<rparr>"
proof -
  have wr: "written lib (key_names ks) ys = (xs, Inr ())"
    using assms(4,3) by (rule written_all)
  have "fold (upsert (key_names ks)) xs [] = [] @ xs"
    using assms(2) by (intro fold_upsert_fresh) simp
  with put_loop_written [OF assms(1), of n lib ys] wr
  show ?thesis by (cases "put_loop tn (ddb_client n) lib ys w") simp
qed

section \<open>The fields of a document\<close>

lemma set_fields_without:
  assumes named: "\<And>kv d' d1. fold_name (fst kv) = f \<Longrightarrow> set_field kv d' = Inr d1 \<Longrightarrow> upd d1 = upd d'"
    and other: "\<And>kv d' d1. fold_name (fst kv) \<noteq> f \<Longrightarrow> set_field kv d' = Inr d1 \<Longrightarrow>
        set_field kv (upd d') = Inr (upd d1)"
  shows "set_fields ms d0 = Inr d \<Longrightarrow>
     set_fields (filter (\<lambda>kv. fold_name (fst kv) \<noteq> f) ms) (upd d0) = Inr (upd d)"
proof (induction ms arbitrary: d0)
  case Nil
  then show ?case by simp
next
  case (Cons kv ms)
  from Cons.prems obtain d1 where step: "set_field kv d0 = Inr d1" and run: "set_fields ms d1 = Inr d"
    by (auto split: sum.splits)
  show ?case
  proof (cases "fold_name (fst kv) = f")
    case True
    from named [OF True step] Cons.IH [OF run] True show ?thesis by simp
  next
    case False
    from other [OF False step] Cons.IH [OF run] False show ?thesis by simp
  qed
qed

lemma without_TableName:
  "set_fields ms d0 = Inr d \<Longrightarrow>
   set_fields (filter (\<lambda>kv. fold_name (fst kv) \<noteq> ''tablename'') ms) (d0\<lparr>TableName := x\<rparr>) =
     Inr (d\<lparr>TableName := x\<rparr>)"
  by (rule set_fields_without [where upd = "\<lambda>d. d\<lparr>TableName := x\<rparr>"])
    (auto simp: set_field_def split: sum.splits option.splits if_splits)

lemma without_PrimaryKey:
  "set_fields ms d0 = Inr d \<Longrightarrow>
   set_fields (filter (\<lambda>kv. fold_name (fst kv) \<noteq> ''primarykey'') ms) (d0\<lparr>PrimaryKey := x\<rparr>) =
     Inr (d\<lparr>PrimaryKey := x\<rparr>)"
  by (rule set_fields_without [where upd = "\<lambda>d. d\<lparr>PrimaryKey := x\<rparr>"])
    (auto simp: set_field_def split: sum.splits option.splits if_splits)

lemma without_RangeKey:
  "set_fields ms d0 = Inr d \<Longrightarrow>
   set_fields (filter (\<lambda>kv. fold_name (fst kv) \<noteq> ''rangekey'') ms) (d0\<lparr>RangeKey := x\<rparr>) =
     Inr (d\<lparr>RangeKey := x\<rparr>)"
  by (rule set_fields_without [where upd = "\<lambda>d. d\<lparr>RangeKey := x\<rparr>"])
    (auto simp: set_field_def split: sum.splits option.splits if_splits)

lemma without_Items:
  "set_fields ms d0 = Inr d \<Longrightarrow>
   set_fields (filter (\<lambda>kv. fold_name (fst kv) \<noteq> ''items'') ms) (d0\<lparr>Items := x\<rparr>) =
     Inr (d\<lparr>Items := x\<rparr>)"
  by (rule set_fields_without [where upd = "\<lambda>d. d\<lparr>Items := x\<rparr>"])
    (auto simp: set_field_def split: sum.splits option.splits if_splits)

lemma filter_all: "list_all P ms \<Longrightarrow> filter P ms = ms"
  by (induction ms) auto

lemma items_once:
  "length (filter (\<lambda>kv. fold_name (fst kv) = ''items'') (filter P ms)) \<le>
   length (filter (\<lambda>kv. fold_name (fst kv) = ''items'') ms)"
  by (induction ms) auto

lemma store_members_without:
  assumes "store_members ms = Inr d"
  shows "store_members (filter (\<lambda>kv. fold_name (fst kv) \<noteq> ''tablename'') ms) = Inr (d\<lparr>TableName := []\<rparr>)"
    and "store_members (filter (\<lambda>kv. fold_name (fst kv) \<noteq> ''primarykey'') ms) = Inr (d\<lparr>PrimaryKey := []\<rparr>)"
    and "store_members (filter (\<lambda>kv. fold_name (fst kv) \<noteq> ''rangekey'') ms) = Inr (d\<lparr>RangeKey := []\<rparr>)"
    and "store_members (filter (\<lambda>kv. fold_name (fst kv) \<noteq> ''items'') ms) = Inr (d\<lparr>Items := []\<rparr>)"
proof -
  from assms have once: "length (filter (\<lambda>kv. fold_name (fst kv) = ''items'') ms) \<le> 1"
    and run: "set_fields ms zero_exportFormat = Inr d"
    by (auto simp: store_members_def split: if_splits)
  have less: "length (filter (\<lambda>kv. fold_name (fst kv) = ''items'') (filter P ms)) \<le> 1" for P
    using items_once [of P ms] once by simp
  show "store_members (filter (\<lambda>kv. fold_name (fst kv) \<noteq> ''tablename'') ms) = Inr (d\<lparr>TableName := []\<rparr>)"
    using without_TableName [OF run, of "[]"] less by (simp add: store_members_def zero_exportFormat_def)
  show "store_members (filter (\<lambda>kv. fold_name (fst kv) \<noteq> ''primarykey'') ms) = Inr (d\<lparr>PrimaryKey := []\<rparr>)"
    using without_PrimaryKey [OF run, of "[]"] less by (simp add: store_members_def zero_exportFormat_def)
  show "store_members (filter (\<lambda>kv. fold_name (fst kv) \<noteq> ''rangekey'') ms) = Inr (d\<lparr>RangeKey := []\<rparr>)"
    using without_RangeKey [OF run, of "[]"] less by (simp add: store_members_def zero_exportFormat_def)
  show "store_members (filter (\<lambda>kv. fold_name (fst kv) \<noteq> ''items'') ms) = Inr (d\<lparr>Items := []\<rparr>)"
    using without_Items [OF run, of "[]"] less by (simp add: store_members_def zero_exportFormat_def)
qed

lemma absent_members:
  assumes "go_json_Unmarshal raw = Inr d" and "absent f raw"
  shows "d = zero_exportFormat \<or>
     (\<exists>ms. store_members ms = Inr d \<and> filter (\<lambda>kv. fold_name (fst kv) \<noteq> f) ms = ms)"
  using assms
  by (auto simp: go_json_Unmarshal_def absent_def filter_all split: option.splits json.splits)

lemma absent_empty:
  assumes "go_json_Unmarshal raw = Inr d"
  shows "absent ''tablename'' raw \<Longrightarrow> TableName d = []"
    and "absent ''primarykey'' raw \<Longrightarrow> PrimaryKey d = []"
    and "absent ''rangekey'' raw \<Longrightarrow> RangeKey d = []"
    and "absent ''items'' raw \<Longrightarrow> Items d = []"
proof -
  have eq: "e = Inr a \<Longrightarrow> e = Inr b \<Longrightarrow> a = b" for e :: "error + anyitem exportFormat" and a b
    by simp
  show "TableName d = []" if "absent ''tablename'' raw"
  proof -
    from absent_members [OF assms that] consider "d = zero_exportFormat"
      | ms where "store_members ms = Inr d" "filter (\<lambda>kv. fold_name (fst kv) \<noteq> ''tablename'') ms = ms"
      by blast
    then show ?thesis
    proof cases
      case 1
      then show ?thesis by (simp add: zero_exportFormat_def)
    next
      case 2
      from store_members_without(1) [OF 2(1)] 2 have "d = d\<lparr>TableName := []\<rparr>" by simp
      then show ?thesis by (metis exportFormat.select_convs(1) exportFormat.surjective exportFormat.update_convs(1))
    qed
  qed
  show "PrimaryKey d = []" if "absent ''primarykey'' raw"
  proof -
    from absent_members [OF assms that] consider "d = zero_exportFormat"
      | ms where "store_members ms = Inr d" "filter (\<lambda>kv. fold_name (fst kv) \<noteq> ''primarykey'') ms = ms"
      by blast
    then show ?thesis
    proof cases
      case 1
      then show ?thesis by (simp add: zero_exportFormat_def)
    next
      case 2
      from store_members_without(2) [OF 2(1)] 2 have "d = d\<lparr>PrimaryKey := []\<rparr>" by simp
      then show ?thesis by (metis exportFormat.select_convs(2) exportFormat.surjective exportFormat.update_convs(2))
    qed
  qed
  show "RangeKey d = []" if "absent ''rangekey'' raw"
  proof -
    from absent_members [OF assms that] consider "d = zero_exportFormat"
      | ms where "store_members ms = Inr d" "filter (\<lambda>kv. fold_name (fst kv) \<noteq> ''rangekey'') ms = ms"
      by blast
    then show ?thesis
    proof cases
      case 1
      then show ?thesis by (simp add: zero_exportFormat_def)
    next
      case 2
      from store_members_without(3) [OF 2(1)] 2 have "d = d\<lparr>RangeKey := []\<rparr>" by simp
      then show ?thesis by (metis exportFormat.select_convs(3) exportFormat.surjective exportFormat.update_convs(3))
    qed
  qed
  show "Items d = []" if "absent ''items'' raw"
  proof -
    from absent_members [OF assms that] consider "d = zero_exportFormat"
      | ms where "store_members ms = Inr d" "filter (\<lambda>kv. fold_name (fst kv) \<noteq> ''items'') ms = ms"
      by blast
    then show ?thesis
    proof cases
      case 1
      then show ?thesis by (simp add: zero_exportFormat_def)
    next
      case 2
      from store_members_without(4) [OF 2(1)] 2 have "d = d\<lparr>Items := []\<rparr>" by simp
      then show ?thesis by (metis exportFormat.select_convs(4) exportFormat.surjective exportFormat.update_convs(4))
    qed
  qed
qed

lemma all_absent:
  assumes "absent ''tablename'' raw" "absent ''primarykey'' raw" "absent ''rangekey'' raw"
    "absent ''items'' raw"
  shows "go_json_Unmarshal raw = Inr zero_exportFormat"
proof -
  have skip: "set_fields ms d = Inr d"
    if "list_all (\<lambda>kv. fold_name (fst kv) \<noteq> ''tablename'') ms"
      "list_all (\<lambda>kv. fold_name (fst kv) \<noteq> ''primarykey'') ms"
      "list_all (\<lambda>kv. fold_name (fst kv) \<noteq> ''rangekey'') ms"
      "list_all (\<lambda>kv. fold_name (fst kv) \<noteq> ''items'') ms" for ms d
    using that by (induction ms) (auto simp: set_field_def)
  have none: "filter (\<lambda>kv. fold_name (fst kv) = ''items'') ms = []"
    if "list_all (\<lambda>kv. fold_name (fst kv) \<noteq> ''items'') ms" for ms :: "(string \<times> json) list"
    using that by (induction ms) auto
  from assms show ?thesis
    by (auto simp: go_json_Unmarshal_def absent_def store_members_def skip none
        split: option.splits json.splits)
qed

section \<open>The table and its document, evaluated\<close>

lemma foo_doc_parsed: "go_json_Unmarshal foo_doc = Inr foo_data"
  unfolding foo_doc_def foo_data_def by code_simp

lemma bad_first_parsed:
  "go_json_Unmarshal bad_first_doc =
     Inr (zero_exportFormat\<lparr>Items := [[(''v'', GoFloat64 2)],
                                       [(''id'', GoString ''a''), (''v'', GoFloat64 1)]]\<rparr>)"
  unfolding bad_first_doc_def zero_exportFormat_def by code_simp

lemma bad_second_parsed:
  "go_json_Unmarshal bad_second_doc =
     Inr (zero_exportFormat\<lparr>Items := [[(''id'', GoString ''a''), (''v'', GoFloat64 1)],
                                       [(''v'', GoFloat64 2)],
                                       [(''id'', GoString ''b''), (''v'', GoFloat64 2)]]\<rparr>)"
  unfolding bad_second_doc_def zero_exportFormat_def by code_simp

lemmas service_defs =
  ddb_client_def ddb_PutItem_def ddb_Scan_def ddb_DescribeTable_def foo_db_def foo_schema_def
  key_names_def item_key_def item_a_def item_b_def List.map_filter_def items_after_def

lemmas codec_defs =
  go_codecs_def go_MarshalMap_def FormatFloat_def show_int_def digit_char_def

lemma foo_page_1:
  "ddb_Scan 0 foo_db ''foo'' None =
     (Inr \<lparr>so_Items = [item_a], LastEvaluatedKey = Some [(''id'', MemberS ''a'')]\<rparr>, foo_db)"
  by (simp add: service_defs)

lemma foo_page_2:
  "ddb_Scan 0 foo_db ''foo'' (Some [(''id'', MemberS ''a'')]) =
     (Inr \<lparr>so_Items = [item_b], LastEvaluatedKey = None\<rparr>, foo_db)"
  by (simp add: service_defs)

lemma foo_described:
  "ddb_DescribeTable foo_db ''foo'' =
     (Inr \<lparr>Table = Some \<lparr>td_TableName = Some ''foo'', KeySchema = foo_schema\<rparr>\<rparr>, foo_db)"
  by (simp add: ddb_DescribeTable_def foo_db_def)

lemma foo_decoded: "go_UnmarshalListOfMaps [item_a, item_b] = Inr (Items foo_data)"
  unfolding item_a_def item_b_def foo_data_def by code_simp

lemma foo_data_written: "go_json_Marshal foo_data = Inr foo_doc"
  unfolding foo_data_def foo_doc_def by code_simp

lemma foo_export:
  "export ''foo'' (ddb_client 0) go_codecs (start foo_db) =
     Some (Inr foo_doc,
           \<lparr>store = foo_db,
            requests = [DescribeTableReq ''foo'', ScanReq ''foo'' None,
                        ScanReq ''foo'' (Some [(''id'', MemberS ''a'')])]\<rparr>)"
proof -
  have "export ''foo'' (ddb_client 0) go_codecs (start foo_db) =
     Some (Inr foo_doc,
           \<lparr>store = foo_db,
            requests = requests (start foo_db) @ DescribeTableReq ''foo'' #
              scan_requests ''foo''
                [\<lparr>so_Items = [item_a], LastEvaluatedKey = Some [(''id'', MemberS ''a'')]\<rparr>]\<rparr>)"
  proof (rule export_done [where n = "''foo''" and ?s1.0 = foo_db and ?s2.0 = foo_db
        and tok = "Some [(''id'', MemberS ''a'')]"
        and out = "\<lparr>so_Items = [item_b], LastEvaluatedKey = None\<rparr>"
        and td = "\<lparr>td_TableName = Some ''foo'', KeySchema = foo_schema\<rparr>"
        and d = "\<lparr>TableName = ''foo'', PrimaryKey = ''id'', RangeKey = [], Items = []\<rparr>"
        and its = "Items foo_data"])
    show "DescribeTable (ddb_client 0) (store (start foo_db)) ''foo'' =
        (Inr \<lparr>Table = Some \<lparr>td_TableName = Some ''foo'', KeySchema = foo_schema\<rparr>\<rparr>, foo_db)"
      by (simp add: ddb_client_def start_def foo_described)
    show "scan_serves (ddb_client 0) ''foo'' None foo_db
        [\<lparr>so_Items = [item_a], LastEvaluatedKey = Some [(''id'', MemberS ''a'')]\<rparr>] =
        Some (Some [(''id'', MemberS ''a'')], foo_db)"
      by (simp add: ddb_client_def foo_page_1)
    show "Scan (ddb_client 0) foo_db ''foo'' (Some [(''id'', MemberS ''a'')]) =
        (Inr \<lparr>so_Items = [item_b], LastEvaluatedKey = None\<rparr>, foo_db)"
      by (simp add: ddb_client_def foo_page_2)
    show "UnmarshalListOfMaps go_codecs
        (concat (map so_Items
           [\<lparr>so_Items = [item_a], LastEvaluatedKey = Some [(''id'', MemberS ''a'')]\<rparr>]) @
         so_Items \<lparr>so_Items = [item_b], LastEvaluatedKey = None\<rparr>) = Inr (Items foo_data)"
      using foo_decoded by (simp add: go_codecs_def del: go_UnmarshalListOfMaps.simps)
    show "json_Marshal go_codecs
        (\<lparr>TableName = ''foo'', PrimaryKey = ''id'', RangeKey = [], Items = []\<rparr>
           \<lparr>Items := Items foo_data\<rparr>) = Inr foo_doc"
      using foo_data_written by (simp add: go_codecs_def foo_data_def)
  qed (simp_all add: foo_schema_def)
  then show ?thesis by (simp add: start_def scan_requests_def)
qed

lemma orders_described:
  "ddb_DescribeTable orders_db ''orders'' =
     (Inr \<lparr>Table = Some \<lparr>td_TableName = Some ''orders'', KeySchema = orders_schema\<rparr>\<rparr>, orders_db)"
  by (simp add: ddb_DescribeTable_def orders_db_def)

lemma orders_page:
  "ddb_Scan 0 orders_db ''orders'' None =
     (Inr \<lparr>so_Items = [[(''customer'', MemberS ''c''), (''day'', MemberN ''7'')]],
           LastEvaluatedKey = None\<rparr>, orders_db)"
  by (simp add: ddb_Scan_def orders_db_def Let_def)

lemma orders_written:
  "go_json_Marshal
     \<lparr>TableName = ''orders'', PrimaryKey = ''customer'', RangeKey = ''day'',
      Items = [[(''customer'', GoString ''c''), (''day'', GoFloat64 7)]]\<rparr> = Inr orders_doc"
  unfolding orders_doc_def by code_simp

lemma orders_decoded:
  "go_UnmarshalListOfMaps [[(''customer'', MemberS ''c''), (''day'', MemberN ''7'')]] =
     Inr [[(''customer'', GoString ''c''), (''day'', GoFloat64 7)]]"
  by code_simp

lemma orders_export:
  "export ''orders'' (ddb_client 0) go_codecs (start orders_db) =
     Some (Inr orders_doc,
           \<lparr>store = orders_db,
            requests = [DescribeTableReq ''orders'', ScanReq ''orders'' None]\<rparr>)"
proof -
  have "export ''orders'' (ddb_client 0) go_codecs (start orders_db) =
     Some (Inr orders_doc,
           \<lparr>store = orders_db,
            requests = requests (start orders_db) @ DescribeTableReq ''orders'' #
              scan_requests ''orders'' []\<rparr>)"
  proof (rule export_done [where n = "''orders''" and ?s1.0 = orders_db and ?s2.0 = orders_db
        and tok = None
        and out = "\<lparr>so_Items = [[(''customer'', MemberS ''c''), (''day'', MemberN ''7'')]],
                    LastEvaluatedKey = None\<rparr>"
        and td = "\<lparr>td_TableName = Some ''orders'', KeySchema = orders_schema\<rparr>"
        and d = "\<lparr>TableName = ''orders'', PrimaryKey = ''customer'', RangeKey = ''day'',
                  Items = []\<rparr>"
        and its = "[[(''customer'', GoString ''c''), (''day'', GoFloat64 7)]]"])
    show "DescribeTable (ddb_client 0) (store (start orders_db)) ''orders'' =
        (Inr \<lparr>Table = Some \<lparr>td_TableName = Some ''orders'', KeySchema = orders_schema\<rparr>\<rparr>,
         orders_db)"
      by (simp add: ddb_client_def start_def orders_described)
    show "Scan (ddb_client 0) orders_db ''orders'' None =
        (Inr \<lparr>so_Items = [[(''customer'', MemberS ''c''), (''day'', MemberN ''7'')]],
              LastEvaluatedKey = None\<rparr>, orders_db)"
      by (simp add: ddb_client_def orders_page)
    show "UnmarshalListOfMaps go_codecs
        (concat (map so_Items []) @
         so_Items \<lparr>so_Items = [[(''customer'', MemberS ''c''), (''day'', MemberN ''7'')]],
                   LastEvaluatedKey = None\<rparr>) =
        Inr [[(''customer'', GoString ''c''), (''day'', GoFloat64 7)]]"
      using orders_decoded by (simp add: go_codecs_def del: go_UnmarshalListOfMaps.simps)
    show "json_Marshal go_codecs
        (\<lparr>TableName = ''orders'', PrimaryKey = ''customer'', RangeKey = ''day'', Items = []\<rparr>
           \<lparr>Items := [[(''customer'', GoString ''c''), (''day'', GoFloat64 7)]]\<rparr>) = Inr orders_doc"
      using orders_written by (simp add: go_codecs_def)
  qed (simp_all add: orders_schema_def)
  then show ?thesis by (simp add: start_def scan_requests_def)
qed

lemma empty_object_parsed: "go_json_Unmarshal ''{}'' = Inr zero_exportFormat"
  by code_simp

lemma only_items_parsed:
  "go_json_Unmarshal only_items_doc =
     Inr \<lparr>TableName = [], PrimaryKey = [], RangeKey = [],
          Items = [[(''id'', GoString ''a''), (''v'', GoFloat64 1)]]\<rparr>"
  unfolding only_items_doc_def by code_simp

lemma foo_export_any_page_size:
  "map_option fst (export ''foo'' (ddb_client n) go_codecs (start foo_db)) = Some (Inr foo_doc)"
proof (cases n)
  case 0
  then show ?thesis by (simp add: foo_export)
next
  case (Suc m)
  have page: "Scan (ddb_client n) foo_db ''foo'' None =
      (Inr \<lparr>so_Items = [item_a, item_b], LastEvaluatedKey = None\<rparr>, foo_db)"
    using Suc by (simp add: ddb_client_def ddb_Scan_def foo_db_def Let_def)
  have "export ''foo'' (ddb_client n) go_codecs (start foo_db) =
     Some (Inr foo_doc,
           \<lparr>store = foo_db,
            requests = requests (start foo_db) @ DescribeTableReq ''foo'' #
              scan_requests ''foo'' []\<rparr>)"
  proof (rule export_done [where n = "''foo''" and ?s1.0 = foo_db and ?s2.0 = foo_db
        and tok = None
        and out = "\<lparr>so_Items = [item_a, item_b], LastEvaluatedKey = None\<rparr>"
        and td = "\<lparr>td_TableName = Some ''foo'', KeySchema = foo_schema\<rparr>"
        and d = "\<lparr>TableName = ''foo'', PrimaryKey = ''id'', RangeKey = [], Items = []\<rparr>"
        and its = "Items foo_data"])
    show "DescribeTable (ddb_client n) (store (start foo_db)) ''foo'' =
        (Inr \<lparr>Table = Some \<lparr>td_TableName = Some ''foo'', KeySchema = foo_schema\<rparr>\<rparr>, foo_db)"
      by (simp add: ddb_client_def start_def foo_described)
    show "Scan (ddb_client n) foo_db ''foo'' None =
        (Inr \<lparr>so_Items = [item_a, item_b], LastEvaluatedKey = None\<rparr>, foo_db)"
      by (rule page)
    show "UnmarshalListOfMaps go_codecs
        (concat (map so_Items []) @
         so_Items \<lparr>so_Items = [item_a, item_b], LastEvaluatedKey = None\<rparr>) = Inr (Items foo_data)"
      using foo_decoded by (simp add: go_codecs_def del: go_UnmarshalListOfMaps.simps)
    show "json_Marshal go_codecs
        (\<lparr>TableName = ''foo'', PrimaryKey = ''id'', RangeKey = [], Items = []\<rparr>
           \<lparr>Items := Items foo_data\<rparr>) = Inr foo_doc"
      using foo_data_written by (simp add: go_codecs_def foo_data_def)
  qed (simp_all add: foo_schema_def)
  then show ?thesis by simp
qed

lemma foo_representable: "representable go_codecs ''foo'' foo_schema [item_a, item_b]"
  unfolding foo_schema_def item_a_def item_b_def by code_simp

lemma only_items_absent:
  "absent ''tablename'' only_items_doc" "absent ''primarykey'' only_items_doc"
  "absent ''rangekey'' only_items_doc"
  unfolding only_items_doc_def by code_simp+

lemma empty_object_absent: "absent ''items'' ''{}''"
  by code_simp

lemma foo_members:
  "store_members
     [(''TableName'', JString ''foo''), (''PrimaryKey'', JString ''id''),
      (''Items'', JArray [])] =
   Inr \<lparr>TableName = ''foo'', PrimaryKey = ''id'', RangeKey = [], Items = []\<rparr>"
  by code_simp

section \<open>The confirmation\<close>

text \<open>
  When the form leaves \<open>confirm\<close> false, \<open>importFromFile\<close> sends no request at all,
  leaves the store as it was and returns nil.
\<close>

lemma import_declined:
  assumes "ReadFile env path = Inr raw"
    and "json_Unmarshal lib raw = Inr data"
    and "form_Run env (confirm_title tableName) = (False, err)"
  shows "importFromFile tableName env cl lib path w = (Inr (), w)"
  using assms by (simp add: importFromFile_def)

lemma import_declined_at_foo:
  "importFromFile ''bar'' (file_env foo_doc False (Some (Error ''user aborted''))) (ddb_client 0)
     go_codecs ''foo.json'' (start foo_db) = (Inr (), start foo_db)"
  by (rule import_declined [where raw = foo_doc and data = foo_data])
    (simp_all add: file_env_def go_codecs_def foo_doc_parsed)

text \<open>
  C2. The specification has the import end with no write when the answer is no and
  also when the form itself fails. The code tests \<open>confirm\<close> alone: the error that
  \<^verbatim>\<open>form.Run()\<close> returns is the one error of \<open>importFromFile\<close> that is not looked at.
  So the second half does not hold of it. Here the form returns the error of an aborted
  form after the answer was moved to yes: the import goes on, writes both items and
  returns nil.
\<close>

theorem import_after_prompt_error:
  "form_Run (file_env foo_doc True (Some (Error ''user aborted''))) (confirm_title ''bar'')
     = (True, Some (Error ''user aborted'')) \<and>
   importFromFile ''bar'' (file_env foo_doc True (Some (Error ''user aborted''))) (ddb_client 0)
     go_codecs ''foo.json'' (start foo_db)
     = (Inr (),
        \<lparr>store = foo_db(''bar'' \<mapsto> \<lparr>tbl_KeySchema = foo_schema, tbl_Items = [item_a, item_b]\<rparr>),
         requests = [PutItemReq ''bar'' item_a, PutItemReq ''bar'' item_b]\<rparr>)"
  by (simp add: importFromFile_def file_env_def foo_doc_parsed foo_data_def start_def
      client_PutItem_def codec_defs service_defs)

section \<open>A write that fails\<close>

text \<open>
  C3. In a confirmed import, let the write of the item at position \<open>length pre\<close> fail,
  the writes of the items \<open>pre\<close> before it having succeeded one after the other. Then
  the requests sent are the writes of the items before it, in order, and the failing
  write, and nothing after it: no later item is written and nothing is taken back. The
  store is the one the earlier writes and the failing request left.
\<close>

theorem import_write_failure:
  assumes "ReadFile env path = Inr raw"
    and "json_Unmarshal lib raw = Inr data"
    and "form_Run env (confirm_title tableName) = (True, err)"
    and "Items data = pre @ item # post"
    and "map (MarshalMap lib) pre = map Inr ms"
    and "put_all cl tableName ms (store w) = Some s1"
    and "MarshalMap lib item = Inr m"
    and "PutItem cl s1 tableName m = (Inl e, s2)"
  shows "importFromFile tableName env cl lib path w =
     (Inl e, \<lparr>store = s2, requests = requests w @ map (PutItemReq tableName) (ms @ [m])\<rparr>)"
  using assms(1-4) put_loop_fails_at [OF assms(5-8)] by (simp add: importFromFile_def)

theorem import_write_failure_witness:
  "importFromFile ''bar'' (file_env bad_second_doc True None) (ddb_client 0) go_codecs
     ''foo.json'' (start foo_db) =
     (Inl (Error ''ValidationException''),
      \<lparr>store = foo_db(''bar'' \<mapsto> \<lparr>tbl_KeySchema = foo_schema, tbl_Items = [item_a]\<rparr>),
       requests = [PutItemReq ''bar'' item_a, PutItemReq ''bar'' [(''v'', MemberN ''2'')]]\<rparr>)"
proof -
  let ?data = "zero_exportFormat\<lparr>Items := [[(''id'', GoString ''a''), (''v'', GoFloat64 1)],
      [(''v'', GoFloat64 2)], [(''id'', GoString ''b''), (''v'', GoFloat64 2)]]\<rparr>"
  let ?s1 = "foo_db(''bar'' \<mapsto> \<lparr>tbl_KeySchema = foo_schema, tbl_Items = [item_a]\<rparr>)"
  have "importFromFile ''bar'' (file_env bad_second_doc True None) (ddb_client 0) go_codecs
     ''foo.json'' (start foo_db) =
     (Inl (Error ''ValidationException''),
      \<lparr>store = ?s1,
       requests = requests (start foo_db)
         @ map (PutItemReq ''bar'') ([item_a] @ [[(''v'', MemberN ''2'')]])\<rparr>)"
  proof (rule import_write_failure [where raw = bad_second_doc and data = ?data and err = None
        and pre = "[[(''id'', GoString ''a''), (''v'', GoFloat64 1)]]"
        and item = "[(''v'', GoFloat64 2)]"
        and post = "[[(''id'', GoString ''b''), (''v'', GoFloat64 2)]]"
        and ?s1.0 = ?s1])
    show "ReadFile (file_env bad_second_doc True None) ''foo.json'' = Inr bad_second_doc"
      by (simp add: file_env_def)
    show "json_Unmarshal go_codecs bad_second_doc = Inr ?data"
      by (simp add: go_codecs_def bad_second_parsed)
    show "form_Run (file_env bad_second_doc True None) (confirm_title ''bar'') = (True, None)"
      by (simp add: file_env_def)
    show "Items ?data = [[(''id'', GoString ''a''), (''v'', GoFloat64 1)]] @ [(''v'', GoFloat64 2)]
        # [[(''id'', GoString ''b''), (''v'', GoFloat64 2)]]"
      by simp
    show "map (MarshalMap go_codecs) [[(''id'', GoString ''a''), (''v'', GoFloat64 1)]] = map Inr [item_a]"
      by (simp add: codec_defs item_a_def)
    show "put_all (ddb_client 0) ''bar'' [item_a] (store (start foo_db)) = Some ?s1"
      by (simp add: start_def service_defs)
    show "MarshalMap go_codecs [(''v'', GoFloat64 2)] = Inr [(''v'', MemberN ''2'')]"
      by (simp add: codec_defs)
    show "PutItem (ddb_client 0) ?s1 ''bar'' [(''v'', MemberN ''2'')] = (Inl (Error ''ValidationException''), ?s1)"
      by (simp add: service_defs)
  qed
  then show ?thesis by (simp add: start_def)
qed

text \<open>
  C4, as amended. The error \<open>importFromFile\<close> returns when a write fails is the error
  of that write, as the client returned it, whatever the position of the item.
\<close>

theorem import_returns_put_error:
  assumes "ReadFile env path = Inr raw"
    and "json_Unmarshal lib raw = Inr data"
    and "form_Run env (confirm_title tableName) = (True, err)"
    and "Items data = pre @ item # post"
    and "map (MarshalMap lib) pre = map Inr ms"
    and "put_all cl tableName ms (store w) = Some s1"
    and "MarshalMap lib item = Inr m"
    and "PutItem cl s1 tableName m = (Inl e, s2)"
  shows "fst (importFromFile tableName env cl lib path w) = Inl e"
  using assms(1-4) put_loop_fails_at [OF assms(5-8)] by (simp add: importFromFile_def)

theorem import_returns_put_error_witness:
  "fst (importFromFile ''bar'' (file_env bad_first_doc True None) (ddb_client 0) go_codecs
     ''foo.json'' (start foo_db)) = Inl (Error ''ValidationException'')"
proof -
  let ?data = "zero_exportFormat\<lparr>Items := [[(''v'', GoFloat64 2)],
      [(''id'', GoString ''a''), (''v'', GoFloat64 1)]]\<rparr>"
  show ?thesis
  proof (rule import_returns_put_error [where raw = bad_first_doc and data = ?data and err = None
        and pre = "[]" and ms = "[]" and item = "[(''v'', GoFloat64 2)]"
        and post = "[[(''id'', GoString ''a''), (''v'', GoFloat64 1)]]"
        and ?s1.0 = foo_db and ?s2.0 = foo_db and m = "[(''v'', MemberN ''2'')]"])
    show "ReadFile (file_env bad_first_doc True None) ''foo.json'' = Inr bad_first_doc"
      by (simp add: file_env_def)
    show "json_Unmarshal go_codecs bad_first_doc = Inr ?data"
      by (simp add: go_codecs_def bad_first_parsed)
    show "form_Run (file_env bad_first_doc True None) (confirm_title ''bar'') = (True, None)"
      by (simp add: file_env_def)
    show "Items ?data = [] @ [(''v'', GoFloat64 2)] # [[(''id'', GoString ''a''), (''v'', GoFloat64 1)]]"
      by simp
    show "map (MarshalMap go_codecs) [] = map Inr []"
      by simp
    show "put_all (ddb_client 0) ''bar'' [] (store (start foo_db)) = Some foo_db"
      by (simp add: start_def)
    show "MarshalMap go_codecs [(''v'', GoFloat64 2)] = Inr [(''v'', MemberN ''2'')]"
      by (simp add: codec_defs)
    show "PutItem (ddb_client 0) foo_db ''bar'' [(''v'', MemberN ''2'')] = (Inl (Error ''ValidationException''), foo_db)"
      by (simp add: service_defs)
  qed
qed

text \<open>
  C4 as the specification states it fails: the write fails at the first item of one
  document and at the second item of the other, and both runs return the same error.
  Nothing in it tells the position.
\<close>

theorem same_error_at_two_positions:
  "importFromFile ''bar'' (file_env bad_first_doc True None) (ddb_client 0) go_codecs
     ''foo.json'' (start foo_db) =
     (Inl (Error ''ValidationException''),
      \<lparr>store = foo_db, requests = [PutItemReq ''bar'' [(''v'', MemberN ''2'')]]\<rparr>) \<and>
   importFromFile ''bar'' (file_env bad_second_doc True None) (ddb_client 0) go_codecs
     ''foo.json'' (start foo_db) =
     (Inl (Error ''ValidationException''),
      \<lparr>store = foo_db(''bar'' \<mapsto> \<lparr>tbl_KeySchema = foo_schema, tbl_Items = [item_a]\<rparr>),
       requests = [PutItemReq ''bar'' item_a, PutItemReq ''bar'' [(''v'', MemberN ''2'')]]\<rparr>)"
  by (simp add: importFromFile_def file_env_def bad_first_parsed bad_second_parsed
      zero_exportFormat_def start_def client_PutItem_def codec_defs service_defs)


section \<open>A scan that fails\<close>

text \<open>
  C5. Let the service answer the first pages \<open>outs\<close> of the scan, each with a
  \<^verbatim>\<open>LastEvaluatedKey\<close>, and fail the request for the next page with \<open>e\<close>. Then
  \<open>export\<close> returns, and what it returns is the error \<open>e\<close> and no document: the items of
  the pages before are dropped. The process prints nothing on its standard output and
  ends in \<^verbatim>\<open>log.Fatal\<close>.
\<close>

theorem export_scan_failure:
  fixes lib :: "('av, 'any) codecs"
  assumes "tn \<noteq> []"
    and "DescribeTable cl (store w) tn = (Inr \<lparr>Table = Some td\<rparr>, s1)"
    and "td_TableName td = Some n"
    and "\<forall>k \<in> set (KeySchema td). AttributeName k \<noteq> None"
    and "scan_serves cl tn None s1 outs = Some (tok, s2)"
    and "Scan cl s2 tn tok = (Inl e, s3)"
  shows "export tn cl lib w =
       Some (Inl (Err e),
             \<lparr>store = s3, requests = requests w @ DescribeTableReq tn # scan_requests tn outs\<rparr>) \<and>
     main tn [] (Inr cl) env lib w =
       Some ([], Fatal e,
             \<lparr>store = s3, requests = requests w @ DescribeTableReq tn # scan_requests tn outs\<rparr>)"
proof -
  let ?w1 = "\<lparr>store = s1, requests = requests w @ [DescribeTableReq tn]\<rparr>"
  from key_schema_loop_names [OF assms(4)] obtain d :: "'any exportFormat"
    where d: "key_schema_loop (KeySchema td)
        \<lparr>TableName = n, PrimaryKey = [], RangeKey = [], Items = []\<rparr> = Inr d"
    by blast
  have "scan_loop cl tn NewScanPaginator [] ?w1 =
      Some (Inl e, \<lparr>store = s3, requests = requests ?w1 @ scan_requests tn outs\<rparr>)"
    by (rule scan_loop_fails_after [where tok = tok and ?s2.0 = s2]) (simp_all add: assms)
  then have "export tn cl lib w =
       Some (Inl (Err e),
             \<lparr>store = s3, requests = requests w @ DescribeTableReq tn # scan_requests tn outs\<rparr>)"
    by (simp add: export_def export_data_scan [OF assms(2,3) d])
  then show ?thesis using assms(1) by (simp add: main_def)
qed

theorem export_scan_failure_witness:
  "export ''foo'' throttled_client go_codecs (start foo_db) =
     Some (Inl (Err (Error ''ProvisionedThroughputExceededException'')),
           \<lparr>store = foo_db,
            requests = [DescribeTableReq ''foo'', ScanReq ''foo'' None,
                        ScanReq ''foo'' (Some [(''id'', MemberS ''a'')])]\<rparr>) \<and>
   main ''foo'' [] (Inr throttled_client) (file_env [] False None) go_codecs (start foo_db) =
     Some ([], Fatal (Error ''ProvisionedThroughputExceededException''),
           \<lparr>store = foo_db,
            requests = [DescribeTableReq ''foo'', ScanReq ''foo'' None,
                        ScanReq ''foo'' (Some [(''id'', MemberS ''a'')])]\<rparr>)"
proof -
  have "export ''foo'' throttled_client go_codecs (start foo_db) =
       Some (Inl (Err (Error ''ProvisionedThroughputExceededException'')),
             \<lparr>store = foo_db, requests = requests (start foo_db) @ DescribeTableReq ''foo'' #
                scan_requests ''foo''
                  [\<lparr>so_Items = [item_a], LastEvaluatedKey = Some [(''id'', MemberS ''a'')]\<rparr>]\<rparr>) \<and>
     main ''foo'' [] (Inr throttled_client) (file_env [] False None) go_codecs (start foo_db) =
       Some ([], Fatal (Error ''ProvisionedThroughputExceededException''),
             \<lparr>store = foo_db, requests = requests (start foo_db) @ DescribeTableReq ''foo'' #
                scan_requests ''foo''
                  [\<lparr>so_Items = [item_a], LastEvaluatedKey = Some [(''id'', MemberS ''a'')]\<rparr>]\<rparr>)"
  proof (rule export_scan_failure [where n = "''foo''" and ?s1.0 = foo_db and ?s2.0 = foo_db
        and tok = "Some [(''id'', MemberS ''a'')]"
        and td = "\<lparr>td_TableName = Some ''foo'', KeySchema = foo_schema\<rparr>"])
    show "DescribeTable throttled_client (store (start foo_db)) ''foo'' =
        (Inr \<lparr>Table = Some \<lparr>td_TableName = Some ''foo'', KeySchema = foo_schema\<rparr>\<rparr>, foo_db)"
      by (simp add: throttled_client_def start_def foo_described)
    show "scan_serves throttled_client ''foo'' None foo_db
        [\<lparr>so_Items = [item_a], LastEvaluatedKey = Some [(''id'', MemberS ''a'')]\<rparr>] =
        Some (Some [(''id'', MemberS ''a'')], foo_db)"
      by (simp add: throttled_client_def foo_page_1)
    show "Scan throttled_client foo_db ''foo'' (Some [(''id'', MemberS ''a'')]) =
        (Inl (Error ''ProvisionedThroughputExceededException''), foo_db)"
      by (simp add: throttled_client_def)
  qed (simp_all add: foo_schema_def)
  then show ?thesis by (simp add: start_def scan_requests_def)
qed

section \<open>The key fields of the document\<close>

text \<open>
  C6. In every successful export the text returned is the serialised document \<open>d\<close>,
  and: if the key schema of the table declares the hash key \<open>h\<close> and no range key, then
  \<open>PrimaryKey d\<close> is \<open>h\<close> and \<open>RangeKey d\<close> is the empty string; if it declares the hash
  key \<open>h\<close> and the range key \<open>r\<close> (attribute names are not empty in DynamoDB), then
  \<open>PrimaryKey d\<close> and \<open>RangeKey d\<close> are \<open>h\<close> and \<open>r\<close>, and not empty.
\<close>

theorem export_key_fields:
  assumes "export tn cl lib w = Some (Inr dump, w')"
    and "DescribeTable cl (store w) tn = (Inr \<lparr>Table = Some td\<rparr>, s1)"
  shows "\<exists>d. export_data tn cl lib w = Some (Inr d, w') \<and> json_Marshal lib d = Inr dump \<and>
     (declares (KeySchema td) KeyTypeHash h \<and>
      (\<forall>k \<in> set (KeySchema td). KeyType k \<noteq> KeyTypeRange)
        \<longrightarrow> PrimaryKey d = h \<and> RangeKey d = []) \<and>
     (declares (KeySchema td) KeyTypeHash h \<and> declares (KeySchema td) KeyTypeRange r \<and>
      h \<noteq> [] \<and> r \<noteq> []
        \<longrightarrow> PrimaryKey d = h \<and> RangeKey d = r \<and> PrimaryKey d \<noteq> [] \<and> RangeKey d \<noteq> [])"
proof -
  from export_from_data [OF assms(1)] obtain d
    where d: "export_data tn cl lib w = Some (Inr d, w')" and m: "json_Marshal lib d = Inr dump"
    by blast
  from export_data_keys [OF d assms(2)] obtain n d0
    where loop: "key_schema_loop (KeySchema td)
        \<lparr>TableName = n, PrimaryKey = [], RangeKey = [], Items = []\<rparr> = Inr d0"
      and dd: "d = d0\<lparr>Items := Items d\<rparr>"
    by blast
  have pk: "PrimaryKey d = PrimaryKey d0" and rk: "RangeKey d = RangeKey d0"
    by (subst dd, simp)+
  have hash: "PrimaryKey d = h" if "declares (KeySchema td) KeyTypeHash h"
    using key_schema_loop_hash [OF loop, of h] that pk by (simp add: declares_def)
  have range: "RangeKey d = r" if "declares (KeySchema td) KeyTypeRange r"
    using key_schema_loop_range [OF loop, of r] that rk by (simp add: declares_def)
  have none: "RangeKey d = []" if "\<forall>k \<in> set (KeySchema td). KeyType k \<noteq> KeyTypeRange"
    using key_schema_loop_range [OF loop, of r] that rk by simp
  from d m hash range none show ?thesis by blast
qed

theorem export_key_fields_witness:
  "(\<exists>d w'. export_data ''foo'' (ddb_client 0) go_codecs (start foo_db) = Some (Inr d, w') \<and>
      json_Marshal go_codecs d = Inr foo_doc \<and> PrimaryKey d = ''id'' \<and> RangeKey d = []) \<and>
   (\<exists>d w'. export_data ''orders'' (ddb_client 0) go_codecs (start orders_db) = Some (Inr d, w') \<and>
      json_Marshal go_codecs d = Inr orders_doc \<and>
      PrimaryKey d = ''customer'' \<and> RangeKey d = ''day'')"
proof
  have "DescribeTable (ddb_client 0) (store (start foo_db)) ''foo'' =
      (Inr \<lparr>Table = Some \<lparr>td_TableName = Some ''foo'', KeySchema = foo_schema\<rparr>\<rparr>, foo_db)"
    by (simp add: ddb_client_def start_def foo_described)
  from export_key_fields [OF foo_export this, of "''id''" "''id''"]
  show "\<exists>d w'. export_data ''foo'' (ddb_client 0) go_codecs (start foo_db) = Some (Inr d, w') \<and>
      json_Marshal go_codecs d = Inr foo_doc \<and> PrimaryKey d = ''id'' \<and> RangeKey d = []"
    by (auto simp: declares_def foo_schema_def)
next
  have "DescribeTable (ddb_client 0) (store (start orders_db)) ''orders'' =
      (Inr \<lparr>Table = Some \<lparr>td_TableName = Some ''orders'', KeySchema = orders_schema\<rparr>\<rparr>,
       orders_db)"
    by (simp add: ddb_client_def start_def orders_described)
  from export_key_fields [OF orders_export this, of "''customer''" "''day''"]
  show "\<exists>d w'. export_data ''orders'' (ddb_client 0) go_codecs (start orders_db) = Some (Inr d, w') \<and>
      json_Marshal go_codecs d = Inr orders_doc \<and>
      PrimaryKey d = ''customer'' \<and> RangeKey d = ''day''"
    by (auto simp: declares_def orders_schema_def)
qed

section \<open>Export only reads\<close>

text \<open>
  C10. Whatever a run of \<open>export\<close> returns, a document or an error, the requests it has
  sent are one \<^verbatim>\<open>DescribeTable\<close> and then \<^verbatim>\<open>Scan\<close> requests, all for the table named on
  the command line: no \<^verbatim>\<open>PutItem\<close> is among them.
\<close>

theorem export_reads_only:
  assumes "export tn cl lib w = Some (r, w')"
  shows "(\<exists>toks. requests w' = requests w @ DescribeTableReq tn # map (ScanReq tn) toks) \<and>
     filter is_put (requests w') = filter is_put (requests w)"
proof -
  from assms obtain r0 where "export_data tn cl lib w = Some (r0, w')"
    by (auto simp: export_def split: option.splits prod.splits sum.splits)
  from export_data_requests [OF this] obtain toks
    where req: "requests w' = requests w @ DescribeTableReq tn # map (ScanReq tn) toks" by blast
  have "filter is_put (map (ScanReq tn) toks) = []"
    by (induction toks) (simp_all add: is_put_def)
  with req have "filter is_put (requests w') = filter is_put (requests w)"
    by (simp add: is_put_def)
  with req show ?thesis by blast
qed

theorem export_reads_only_witness:
  "export ''foo'' (ddb_client 0) go_codecs (start foo_db) =
     Some (Inr foo_doc,
           \<lparr>store = foo_db,
            requests = [DescribeTableReq ''foo'', ScanReq ''foo'' None,
                        ScanReq ''foo'' (Some [(''id'', MemberS ''a'')])]\<rparr>) \<and>
   filter is_put [DescribeTableReq ''foo'', ScanReq ''foo'' None,
                  ScanReq ''foo'' (Some [(''id'', MemberS ''a'')])] = []"
  using export_reads_only [OF foo_export] foo_export by (simp add: start_def)

section \<open>The text of the document\<close>

text \<open>
  C8. The text a successful export returns is a JSON object with the four members
  \<^verbatim>\<open>TableName\<close>, \<^verbatim>\<open>PrimaryKey\<close>, \<^verbatim>\<open>RangeKey\<close> and \<^verbatim>\<open>Items\<close>, under these names and in
  this order. For the table \<^verbatim>\<open>foo\<close> with the hash key \<^verbatim>\<open>id\<close> and its two items, scanned in
  pages of any size, the text is the one the specification gives, and it is what the
  process prints.
\<close>

theorem export_document_keys:
  "(export tn cl go_codecs w = Some (Inr dump, w') \<longrightarrow>
      (\<exists>d. export_data tn cl go_codecs w = Some (Inr d, w') \<and>
         dump = json_object
           [(''TableName'', json_string (TableName d)),
            (''PrimaryKey'', json_string (PrimaryKey d)),
            (''RangeKey'', json_string (RangeKey d)),
            (''Items'', json_value (GoSlice (map GoMap (Items d))))])) \<and>
   map_option fst (export ''foo'' (ddb_client n) go_codecs (start foo_db)) = Some (Inr foo_doc) \<and>
   map_option fst (main ''foo'' [] (Inr (ddb_client n)) env go_codecs (start foo_db)) =
     Some [foo_doc]"
proof (intro conjI impI)
  assume "export tn cl go_codecs w = Some (Inr dump, w')"
  from export_from_data [OF this]
  show "\<exists>d. export_data tn cl go_codecs w = Some (Inr d, w') \<and>
         dump = json_object
           [(''TableName'', json_string (TableName d)),
            (''PrimaryKey'', json_string (PrimaryKey d)),
            (''RangeKey'', json_string (RangeKey d)),
            (''Items'', json_value (GoSlice (map GoMap (Items d))))]"
    by (auto simp: go_codecs_def go_json_Marshal_def)
next
  show "map_option fst (export ''foo'' (ddb_client n) go_codecs (start foo_db)) = Some (Inr foo_doc)"
    by (rule foo_export_any_page_size)
next
  from foo_export_any_page_size [of n]
  show "map_option fst (main ''foo'' [] (Inr (ddb_client n)) env go_codecs (start foo_db)) =
     Some [foo_doc]"
    by (auto simp: main_def)
qed

theorem export_document_keys_witness:
  "export ''foo'' (ddb_client 0) go_codecs (start foo_db) =
     Some (Inr foo_doc,
           \<lparr>store = foo_db,
            requests = [DescribeTableReq ''foo'', ScanReq ''foo'' None,
                        ScanReq ''foo'' (Some [(''id'', MemberS ''a'')])]\<rparr>) \<and>
   (\<exists>d :: anyitem exportFormat. foo_doc = json_object
           [(''TableName'', json_string (TableName d)),
            (''PrimaryKey'', json_string (PrimaryKey d)),
            (''RangeKey'', json_string (RangeKey d)),
            (''Items'', json_value (GoSlice (map GoMap (Items d))))])"
proof -
  let ?w = "\<lparr>store = foo_db,
            requests = [DescribeTableReq ''foo'', ScanReq ''foo'' None,
                        ScanReq ''foo'' (Some [(''id'', MemberS ''a'')])]\<rparr>"
  have "export ''foo'' (ddb_client 0) go_codecs (start foo_db) = Some (Inr foo_doc, ?w) \<longrightarrow>
      (\<exists>d. export_data ''foo'' (ddb_client 0) go_codecs (start foo_db) = Some (Inr d, ?w) \<and>
         foo_doc = json_object
           [(''TableName'', json_string (TableName d)),
            (''PrimaryKey'', json_string (PrimaryKey d)),
            (''RangeKey'', json_string (RangeKey d)),
            (''Items'', json_value (GoSlice (map GoMap (Items d))))])"
    using export_document_keys
      [of "''foo''" "ddb_client 0" "start foo_db" foo_doc ?w 0 "file_env [] False None"]
    by (rule conjunct1)
  with foo_export show ?thesis by blast
qed

section \<open>The table name of the document\<close>

text \<open>
  C9. The import does not look at the \<^verbatim>\<open>TableName\<close> of the document, nor at its key
  fields: two documents with the same items are imported alike. Every request of an
  import is a \<^verbatim>\<open>PutItem\<close> for the table named on the command line. A field that no
  member of the document names is empty after the document is read; a document no
  member of which names any of the four fields is read without error, with all four
  empty; leaving the members that name a field out of a document that is read without
  error gives a document that is read without error, with that field empty and the
  others as they were. A document without \<^verbatim>\<open>Items\<close> is imported with no write and no
  error.
\<close>

theorem import_ignores_table_name:
  fixes cl :: "('s, 'av) client" and cl0 :: "('t, avitem) client"
  shows "(Items data = Items data' \<longrightarrow>
      importFromFile tn env cl (lib\<lparr>json_Unmarshal := \<lambda>raw. Inr data\<rparr>) path w =
      importFromFile tn env cl (lib\<lparr>json_Unmarshal := \<lambda>raw. Inr data'\<rparr>) path w) \<and>
   (importFromFile tn env cl lib path w = (r, w') \<longrightarrow>
      (\<exists>ms. requests w' = requests w @ map (PutItemReq tn) ms)) \<and>
   (go_json_Unmarshal raw = Inr d \<longrightarrow>
      (absent ''tablename'' raw \<longrightarrow> TableName d = []) \<and>
      (absent ''primarykey'' raw \<longrightarrow> PrimaryKey d = []) \<and>
      (absent ''rangekey'' raw \<longrightarrow> RangeKey d = []) \<and>
      (absent ''items'' raw \<longrightarrow> Items d = [])) \<and>
   (absent ''tablename'' raw \<and> absent ''primarykey'' raw \<and> absent ''rangekey'' raw \<and>
    absent ''items'' raw \<longrightarrow>
      go_json_Unmarshal raw = Inr \<lparr>TableName = [], PrimaryKey = [], RangeKey = [], Items = []\<rparr>) \<and>
   (store_members members = Inr d \<longrightarrow>
      store_members (filter (\<lambda>kv. fold_name (fst kv) \<noteq> ''tablename'') members) =
        Inr (d\<lparr>TableName := []\<rparr>) \<and>
      store_members (filter (\<lambda>kv. fold_name (fst kv) \<noteq> ''primarykey'') members) =
        Inr (d\<lparr>PrimaryKey := []\<rparr>) \<and>
      store_members (filter (\<lambda>kv. fold_name (fst kv) \<noteq> ''rangekey'') members) =
        Inr (d\<lparr>RangeKey := []\<rparr>) \<and>
      store_members (filter (\<lambda>kv. fold_name (fst kv) \<noteq> ''items'') members) =
        Inr (d\<lparr>Items := []\<rparr>)) \<and>
   (ReadFile env0 path = Inr raw \<and> go_json_Unmarshal raw = Inr d \<and> absent ''items'' raw \<longrightarrow>
      importFromFile tn env0 cl0 go_codecs path w0 = (Inr (), w0)) \<and>
   go_json_Unmarshal ''{}'' =
      Inr \<lparr>TableName = [], PrimaryKey = [], RangeKey = [], Items = []\<rparr> \<and>
   go_json_Unmarshal only_items_doc =
      Inr \<lparr>TableName = [], PrimaryKey = [], RangeKey = [],
           Items = [[(''id'', GoString ''a''), (''v'', GoFloat64 1)]]\<rparr> \<and>
   importFromFile tn (file_env ''{}'' True None) cl0 go_codecs ''foo.json'' w0 = (Inr (), w0)"
proof (intro conjI impI)
  assume "Items data = Items data'"
  then show "importFromFile tn env cl (lib\<lparr>json_Unmarshal := \<lambda>raw. Inr data\<rparr>) path w =
      importFromFile tn env cl (lib\<lparr>json_Unmarshal := \<lambda>raw. Inr data'\<rparr>) path w"
    by (simp add: importFromFile_def put_loop_codec split: sum.splits prod.splits)
next
  assume "importFromFile tn env cl lib path w = (r, w')"
  then show "\<exists>ms. requests w' = requests w @ map (PutItemReq tn) ms"
    by (rule import_requests)
next
  assume "go_json_Unmarshal raw = Inr d" and "absent ''tablename'' raw"
  then show "TableName d = []" by (rule absent_empty(1))
next
  assume "go_json_Unmarshal raw = Inr d" and "absent ''primarykey'' raw"
  then show "PrimaryKey d = []" by (rule absent_empty(2))
next
  assume "go_json_Unmarshal raw = Inr d" and "absent ''rangekey'' raw"
  then show "RangeKey d = []" by (rule absent_empty(3))
next
  assume "go_json_Unmarshal raw = Inr d" and "absent ''items'' raw"
  then show "Items d = []" by (rule absent_empty(4))
next
  assume "absent ''tablename'' raw \<and> absent ''primarykey'' raw \<and> absent ''rangekey'' raw \<and>
    absent ''items'' raw"
  then show "go_json_Unmarshal raw =
      Inr \<lparr>TableName = [], PrimaryKey = [], RangeKey = [], Items = []\<rparr>"
    using all_absent [of raw] by (simp add: zero_exportFormat_def)
next
  assume "store_members members = Inr d"
  then show "store_members (filter (\<lambda>kv. fold_name (fst kv) \<noteq> ''tablename'') members) =
        Inr (d\<lparr>TableName := []\<rparr>)" by (rule store_members_without(1))
next
  assume "store_members members = Inr d"
  then show "store_members (filter (\<lambda>kv. fold_name (fst kv) \<noteq> ''primarykey'') members) =
        Inr (d\<lparr>PrimaryKey := []\<rparr>)" by (rule store_members_without(2))
next
  assume "store_members members = Inr d"
  then show "store_members (filter (\<lambda>kv. fold_name (fst kv) \<noteq> ''rangekey'') members) =
        Inr (d\<lparr>RangeKey := []\<rparr>)" by (rule store_members_without(3))
next
  assume "store_members members = Inr d"
  then show "store_members (filter (\<lambda>kv. fold_name (fst kv) \<noteq> ''items'') members) =
        Inr (d\<lparr>Items := []\<rparr>)" by (rule store_members_without(4))
next
  assume a: "ReadFile env0 path = Inr raw \<and> go_json_Unmarshal raw = Inr d \<and> absent ''items'' raw"
  then have "Items d = []" using absent_empty(4) [of raw d] by simp
  with a show "importFromFile tn env0 cl0 go_codecs path w0 = (Inr (), w0)"
    by (simp add: importFromFile_def go_codecs_def split: prod.splits)
next
  show "go_json_Unmarshal ''{}'' =
      Inr \<lparr>TableName = [], PrimaryKey = [], RangeKey = [], Items = []\<rparr>"
    using empty_object_parsed by (simp add: zero_exportFormat_def)
next
  show "go_json_Unmarshal only_items_doc =
      Inr \<lparr>TableName = [], PrimaryKey = [], RangeKey = [],
           Items = [[(''id'', GoString ''a''), (''v'', GoFloat64 1)]]\<rparr>"
    by (rule only_items_parsed)
next
  show "importFromFile tn (file_env ''{}'' True None) cl0 go_codecs ''foo.json'' w0 = (Inr (), w0)"
    using empty_object_parsed
    by (simp add: importFromFile_def file_env_def go_codecs_def zero_exportFormat_def)
qed

theorem import_ignores_table_name_witness:
  "importFromFile ''bar'' (file_env foo_doc True None) (ddb_client 0)
      (go_codecs\<lparr>json_Unmarshal := \<lambda>raw. Inr foo_data\<rparr>) ''foo.json'' (start foo_db) =
   importFromFile ''bar'' (file_env foo_doc True None) (ddb_client 0)
      (go_codecs\<lparr>json_Unmarshal := \<lambda>raw. Inr (foo_data\<lparr>TableName := ''bar''\<rparr>)\<rparr>)
      ''foo.json'' (start foo_db) \<and>
   (\<exists>ms. requests (snd (importFromFile ''bar'' (file_env foo_doc True None) (ddb_client 0)
               go_codecs ''foo.json'' (start foo_db))) =
      requests (start foo_db) @ map (PutItemReq ''bar'') ms) \<and>
   (\<exists>d. go_json_Unmarshal only_items_doc = Inr d \<and>
      TableName d = [] \<and> PrimaryKey d = [] \<and> RangeKey d = []) \<and>
   store_members [(''PrimaryKey'', JString ''id''), (''Items'', JArray [])] =
      Inr \<lparr>TableName = [], PrimaryKey = ''id'', RangeKey = [], Items = []\<rparr> \<and>
   importFromFile ''bar'' (file_env ''{}'' True None) (ddb_client 0) go_codecs ''foo.json''
      (start foo_db) = (Inr (), start foo_db)"
proof -
  let ?init = "start foo_db :: (ddb, avitem) world"
  let ?final = "\<lparr>store = foo_db(''bar'' \<mapsto> \<lparr>tbl_KeySchema = foo_schema, tbl_Items = [item_a, item_b]\<rparr>),
         requests = [PutItemReq ''bar'' item_a, PutItemReq ''bar'' item_b]\<rparr>"
  let ?d = "\<lparr>TableName = [], PrimaryKey = [], RangeKey = [],
           Items = [[(''id'', GoString ''a''), (''v'', GoFloat64 1)]]\<rparr>"
  let ?foo = "\<lparr>TableName = ''foo'', PrimaryKey = ''id'', RangeKey = [], Items = []\<rparr>
      :: anyitem exportFormat"
  let ?ms = "[(''TableName'', JString ''foo''), (''PrimaryKey'', JString ''id''),
      (''Items'', JArray [])]"
  let ?zero = "\<lparr>TableName = [], PrimaryKey = [], RangeKey = [], Items = []\<rparr>
      :: anyitem exportFormat"
  note k1 = import_ignores_table_name
    [where data = foo_data and data' = "foo_data\<lparr>TableName := ''bar''\<rparr>" and tn = "''bar''"
      and env = "file_env foo_doc True None" and cl = "ddb_client 0" and lib = go_codecs
      and path = "''foo.json''" and w = ?init and r = "Inr ()" and w' = ?final
      and raw = only_items_doc and d = ?d and members = "[]"
      and ?env0.0 = "file_env ''{}'' True None" and ?cl0.0 = "ddb_client 0" and ?w0.0 = ?init]
  note k2 = import_ignores_table_name
    [where data = foo_data and data' = foo_data and tn = "''bar''"
      and env = "file_env foo_doc True None" and cl = "ddb_client 0" and lib = go_codecs
      and path = "''foo.json''" and w = ?init and r = "Inr ()" and w' = ?final
      and raw = "''{}''" and d = ?foo and members = ?ms
      and ?env0.0 = "file_env ''{}'' True None" and ?cl0.0 = "ddb_client 0" and ?w0.0 = ?init]
  have run: "importFromFile ''bar'' (file_env foo_doc True None) (ddb_client 0)
     go_codecs ''foo.json'' ?init = (Inr (), ?final)"
    by (simp add: importFromFile_def file_env_def foo_doc_parsed foo_data_def start_def
        client_PutItem_def codec_defs service_defs)
  have same: "importFromFile ''bar'' (file_env foo_doc True None) (ddb_client 0)
      (go_codecs\<lparr>json_Unmarshal := \<lambda>raw. Inr foo_data\<rparr>) ''foo.json'' ?init =
   importFromFile ''bar'' (file_env foo_doc True None) (ddb_client 0)
      (go_codecs\<lparr>json_Unmarshal := \<lambda>raw. Inr (foo_data\<lparr>TableName := ''bar''\<rparr>)\<rparr>)
      ''foo.json'' ?init"
    using k1 by simp
  have puts: "\<exists>ms. requests (snd (importFromFile ''bar'' (file_env foo_doc True None) (ddb_client 0)
               go_codecs ''foo.json'' ?init)) = requests ?init @ map (PutItemReq ''bar'') ms"
    using k1 run by simp
  have fields: "TableName ?d = [] \<and> PrimaryKey ?d = [] \<and> RangeKey ?d = []"
    using k1 only_items_parsed only_items_absent by blast
  have dropped: "store_members (filter (\<lambda>kv. fold_name (fst kv) \<noteq> ''tablename'') ?ms) =
      Inr (?foo\<lparr>TableName := []\<rparr>)"
    using k2 foo_members by blast
  have "filter (\<lambda>kv. fold_name (fst kv) \<noteq> ''tablename'') ?ms =
      [(''PrimaryKey'', JString ''id''), (''Items'', JArray [])]"
    by code_simp
  with dropped have without: "store_members [(''PrimaryKey'', JString ''id''), (''Items'', JArray [])] =
      Inr \<lparr>TableName = [], PrimaryKey = ''id'', RangeKey = [], Items = []\<rparr>"
    by simp
  have none: "importFromFile ''bar'' (file_env ''{}'' True None) (ddb_client 0) go_codecs ''foo.json''
      ?init = (Inr (), ?init)"
  proof -
    have "ReadFile (file_env ''{}'' True None) ''foo.json'' = Inr ''{}'' \<and>
        go_json_Unmarshal ''{}'' = Inr ?zero \<and> absent ''items'' ''{}''"
      using empty_object_parsed empty_object_absent
      by (simp add: file_env_def zero_exportFormat_def)
    with import_ignores_table_name
      [where tn = "''bar''" and path = "''foo.json''" and raw = "''{}''"
        and d = ?zero
        and ?env0.0 = "file_env ''{}'' True None" and ?cl0.0 = "ddb_client 0" and ?w0.0 = ?init]
    show ?thesis by blast
  qed
  from same puts fields only_items_parsed without none show ?thesis by blast
qed

section \<open>Importing twice\<close>

text \<open>
  C7. Into a table of the service, where an item is kept under its key attributes and
  a write replaces the item of the same key, importing a document a second time returns
  what the first import returned and leaves the store as the first import left it.
\<close>

theorem import_twice:
  assumes "importFromFile tn env (ddb_client n) lib path w = (r, w1)"
  shows "\<exists>w2. importFromFile tn env (ddb_client n) lib path w1 = (r, w2) \<and> store w2 = store w1"
proof (cases "ReadFile env path")
  case (Inl e)
  with assms show ?thesis by (simp add: importFromFile_def)
next
  case raw: (Inr raw)
  show ?thesis
  proof (cases "json_Unmarshal lib raw")
    case (Inl e)
    with raw assms show ?thesis by (simp add: importFromFile_def)
  next
    case data: (Inr data)
    obtain confirm form_err where form: "form_Run env (confirm_title tn) = (confirm, form_err)"
      by (cases "form_Run env (confirm_title tn)")
    show ?thesis
    proof (cases confirm)
      case False
      with raw data form assms show ?thesis by (simp add: importFromFile_def)
    next
      case True
      with raw data form
      have run: "importFromFile tn env (ddb_client n) lib path w' =
          put_loop tn (ddb_client n) lib (Items data) w'" for w'
        by (simp add: importFromFile_def)
      from assms have "put_loop tn (ddb_client n) lib (Items data) w = (r, w1)"
        by (simp only: run)
      from put_loop_twice [OF this] show ?thesis by (simp only: run)
    qed
  qed
qed

theorem import_twice_witness:
  "importFromFile ''bar'' (file_env foo_doc True None) (ddb_client 0) go_codecs ''foo.json''
     (start foo_db) =
     (Inr (),
      \<lparr>store = foo_db(''bar'' \<mapsto> \<lparr>tbl_KeySchema = foo_schema, tbl_Items = [item_a, item_b]\<rparr>),
       requests = [PutItemReq ''bar'' item_a, PutItemReq ''bar'' item_b]\<rparr>) \<and>
   (\<exists>w2. importFromFile ''bar'' (file_env foo_doc True None) (ddb_client 0) go_codecs ''foo.json''
      \<lparr>store = foo_db(''bar'' \<mapsto> \<lparr>tbl_KeySchema = foo_schema, tbl_Items = [item_a, item_b]\<rparr>),
       requests = [PutItemReq ''bar'' item_a, PutItemReq ''bar'' item_b]\<rparr> = (Inr (), w2) \<and>
      store w2 = foo_db(''bar'' \<mapsto> \<lparr>tbl_KeySchema = foo_schema, tbl_Items = [item_a, item_b]\<rparr>))"
proof -
  have run: "importFromFile ''bar'' (file_env foo_doc True None) (ddb_client 0) go_codecs ''foo.json''
     (start foo_db) =
     (Inr (),
      \<lparr>store = foo_db(''bar'' \<mapsto> \<lparr>tbl_KeySchema = foo_schema, tbl_Items = [item_a, item_b]\<rparr>),
       requests = [PutItemReq ''bar'' item_a, PutItemReq ''bar'' item_b]\<rparr>)"
    by (simp add: importFromFile_def file_env_def foo_doc_parsed foo_data_def start_def
        client_PutItem_def codec_defs service_defs)
  from import_twice [OF run] run show ?thesis by simp
qed

section \<open>The round trip\<close>

text \<open>
  C1. Let a table of the service hold items that are representable in the encoding
  of the document. Then the export of the table returns: the process prints one
  document and exits with status 0, and the store is as before. When that output is
  the file of an import into an empty table with the same key schema, and the answer to
  the form is yes, the import returns nil and the items of that table are, as a set,
  the items of the exported table.
\<close>

theorem export_import_round_trip:
  fixes lib :: "(avitem, 'any) codecs"
  assumes "tn \<noteq> []"
    and "store w tn = Some t"
    and "distinct (map (item_key (key_names (tbl_KeySchema t))) (tbl_Items t))"
    and "\<forall>x \<in> set (tbl_Items t). item_key (key_names (tbl_KeySchema t)) x \<noteq> None"
    and "representable lib tn (tbl_KeySchema t) (tbl_Items t)"
  shows "\<exists>dump w1.
     main tn [] (Inr (ddb_client n)) env lib w = Some ([dump], Exit 0, w1) \<and>
     store w1 = store w \<and>
     (ReadFile env' path = Inr (stdout_text [dump]) \<and>
      form_Run env' (confirm_title tn') = (True, err) \<and>
      store w' tn' = Some \<lparr>tbl_KeySchema = tbl_KeySchema t, tbl_Items = []\<rparr>
      \<longrightarrow> (\<exists>w2 t'. importFromFile tn' env' (ddb_client n') lib path w' = (Inr (), w2) \<and>
             store w2 tn' = Some t' \<and> tbl_KeySchema t' = tbl_KeySchema t \<and>
             set (tbl_Items t') = set (tbl_Items t)))"
proof -
  from assms(5) obtain d ys dump data
    where d: "key_schema_loop (tbl_KeySchema t)
        \<lparr>TableName = tn, PrimaryKey = [], RangeKey = [], Items = []\<rparr> = Inr d"
      and ys: "UnmarshalListOfMaps lib (tbl_Items t) = Inr ys"
      and dump: "json_Marshal lib (d\<lparr>Items := ys\<rparr>) = Inr dump"
      and data: "json_Unmarshal lib (stdout_text [dump]) = Inr data"
      and enc: "map (MarshalMap lib) (Items data) = map Inr (tbl_Items t)"
    by (auto simp: representable_def split: sum.splits)
  from ddb_export [OF assms(2-4) d ys dump, of n] obtain w1
    where ex: "export tn (ddb_client n) lib w = Some (Inr dump, w1)" and st: "store w1 = store w"
    by blast
  from ex assms(1) have m: "main tn [] (Inr (ddb_client n)) env lib w = Some ([dump], Exit 0, w1)"
    by (simp add: main_def)
  have "\<exists>w2 t'. importFromFile tn' env' (ddb_client n') lib path w' = (Inr (), w2) \<and>
             store w2 tn' = Some t' \<and> tbl_KeySchema t' = tbl_KeySchema t \<and>
             set (tbl_Items t') = set (tbl_Items t)"
    if raw: "ReadFile env' path = Inr (stdout_text [dump])"
      and yes: "form_Run env' (confirm_title tn') = (True, err)"
      and dst: "store w' tn' = Some \<lparr>tbl_KeySchema = tbl_KeySchema t, tbl_Items = []\<rparr>"
  proof -
    from ddb_import_fresh [OF dst assms(3,4) enc, of n'] obtain w2
      where "put_loop tn' (ddb_client n') lib (Items data) w' = (Inr (), w2)"
        and "store w2 tn' = Some \<lparr>tbl_KeySchema = tbl_KeySchema t, tbl_Items = tbl_Items t\<rparr>"
      by blast
    moreover have "importFromFile tn' env' (ddb_client n') lib path w' =
        put_loop tn' (ddb_client n') lib (Items data) w'"
      using raw data yes by (simp add: importFromFile_def)
    ultimately show ?thesis by simp
  qed
  with m st show ?thesis by blast
qed

theorem export_import_round_trip_witness:
  "main ''foo'' [] (Inr (ddb_client 0)) (file_env [] False None) go_codecs (start foo_db) =
     Some ([foo_doc], Exit 0,
           \<lparr>store = foo_db,
            requests = [DescribeTableReq ''foo'', ScanReq ''foo'' None,
                        ScanReq ''foo'' (Some [(''id'', MemberS ''a'')])]\<rparr>) \<and>
   (\<exists>w2 t'. importFromFile ''bar'' (file_env (stdout_text [foo_doc]) True None) (ddb_client 0)
        go_codecs ''foo.json'' (start foo_db) = (Inr (), w2) \<and>
      store w2 ''bar'' = Some t' \<and> set (tbl_Items t') = {item_a, item_b})"
proof -
  let ?t = "\<lparr>tbl_KeySchema = foo_schema, tbl_Items = [item_a, item_b]\<rparr>"
  let ?env' = "file_env (stdout_text [foo_doc]) True None"
  let ?w0 = "start foo_db :: (ddb, avitem) world"
  have m: "main ''foo'' [] (Inr (ddb_client 0)) (file_env [] False None) go_codecs ?w0 =
     Some ([foo_doc], Exit 0,
           \<lparr>store = foo_db,
            requests = [DescribeTableReq ''foo'', ScanReq ''foo'' None,
                        ScanReq ''foo'' (Some [(''id'', MemberS ''a'')])]\<rparr>)"
    by (simp add: main_def foo_export)
  have "\<exists>dump w1.
     main ''foo'' [] (Inr (ddb_client 0)) (file_env [] False None) go_codecs ?w0 =
       Some ([dump], Exit 0, w1) \<and>
     store w1 = store ?w0 \<and>
     (ReadFile ?env' ''foo.json'' = Inr (stdout_text [dump]) \<and>
      form_Run ?env' (confirm_title ''bar'') = (True, None) \<and>
      store ?w0 ''bar'' = Some \<lparr>tbl_KeySchema = tbl_KeySchema ?t, tbl_Items = []\<rparr>
      \<longrightarrow> (\<exists>w2 t'. importFromFile ''bar'' ?env' (ddb_client 0) go_codecs ''foo.json''
                 ?w0 = (Inr (), w2) \<and>
             store w2 ''bar'' = Some t' \<and> tbl_KeySchema t' = tbl_KeySchema ?t \<and>
             set (tbl_Items t') = set (tbl_Items ?t)))"
  proof (rule export_import_round_trip
      [where tn = "''foo''" and w = ?w0 and t = ?t and lib = go_codecs and n = 0
        and env = "file_env [] False None" and env' = ?env' and path = "''foo.json''"
        and tn' = "''bar''" and err = None and w' = ?w0 and n' = 0])
    show "store ?w0 ''foo'' = Some ?t"
      by (simp add: start_def foo_db_def)
    show "distinct (map (item_key (key_names (tbl_KeySchema ?t))) (tbl_Items ?t))"
      by (simp add: service_defs)
    show "\<forall>x \<in> set (tbl_Items ?t). item_key (key_names (tbl_KeySchema ?t)) x \<noteq> None"
      by (simp add: service_defs)
    show "representable go_codecs ''foo'' (tbl_KeySchema ?t) (tbl_Items ?t)"
      using foo_representable by simp
  qed simp
  then obtain dump w1
    where "main ''foo'' [] (Inr (ddb_client 0)) (file_env [] False None) go_codecs ?w0 =
       Some ([dump], Exit 0, w1)"
      and imp: "ReadFile ?env' ''foo.json'' = Inr (stdout_text [dump]) \<and>
      form_Run ?env' (confirm_title ''bar'') = (True, None) \<and>
      store ?w0 ''bar'' = Some \<lparr>tbl_KeySchema = tbl_KeySchema ?t, tbl_Items = []\<rparr>
      \<longrightarrow> (\<exists>w2 t'. importFromFile ''bar'' ?env' (ddb_client 0) go_codecs ''foo.json''
                 ?w0 = (Inr (), w2) \<and>
             store w2 ''bar'' = Some t' \<and> tbl_KeySchema t' = tbl_KeySchema ?t \<and>
             set (tbl_Items t') = set (tbl_Items ?t))"
    by blast
  with m have "dump = foo_doc" by simp
  moreover have "ReadFile ?env' ''foo.json'' = Inr (stdout_text [foo_doc])"
    and "form_Run ?env' (confirm_title ''bar'') = (True, None)"
    and "store ?w0 ''bar'' = Some \<lparr>tbl_KeySchema = tbl_KeySchema ?t, tbl_Items = []\<rparr>"
    by (simp_all add: file_env_def start_def foo_db_def)
  ultimately have "\<exists>w2 t'. importFromFile ''bar'' ?env' (ddb_client 0) go_codecs ''foo.json''
                 ?w0 = (Inr (), w2) \<and>
             store w2 ''bar'' = Some t' \<and> tbl_KeySchema t' = tbl_KeySchema ?t \<and>
             set (tbl_Items t') = set (tbl_Items ?t)"
    using imp by blast
  with m show ?thesis by auto
qed

end
